theory Spec2Isabelle
  imports Main "HOL-Library.Sublist"
begin

text \<open>
  A shallow embedding of \<open>juv/_add.py\<close> and \<open>juv/_init.py\<close>: adding dependencies to
  the inline metadata of a notebook or script through the package manager \<open>uv\<close>, and
  creating a notebook that carries such metadata. Files, subprocesses and the notebook
  format are explicit: every function that touches them takes the world and returns
  its result, an error or a value, with the world it leaves.
\<close>

section \<open>Python strings\<close>

text \<open>
  A HOL \<open>string\<close> is a list of bytes. A Python \<open>bytes\<close> object is that list; a
  Python \<open>str\<close> is modelled by its UTF-8 encoding, so \<open>encode("utf-8")\<close> is the
  identity and \<open>decode()\<close> is the identity where the bytes are valid UTF-8 and raises
  otherwise. Substring test, split, join and concatenation of \<open>str\<close> are those of the
  encodings.
\<close>

definition newline :: char where
  "newline = CHR 0x0A"

text \<open>\<open>needle in hay\<close>: the substring test of Python.\<close>

fun str_contains :: "string \<Rightarrow> string \<Rightarrow> bool" where
  "str_contains needle [] = (needle = [])"
| "str_contains needle (c # cs) = (prefix needle (c # cs) \<or> str_contains needle cs)"

text \<open>\<open>s.split(sep)\<close> for a one-character separator: never the empty list.\<close>

fun split_on :: "char \<Rightarrow> string \<Rightarrow> string list" where
  "split_on sep [] = [[]]"
| "split_on sep (c # cs) =
     (if c = sep then [] # split_on sep cs
      else (case split_on sep cs of
              [] \<Rightarrow> [[c]]
            | l # ls \<Rightarrow> (c # l) # ls))"

text \<open>\<open>sep.join(parts)\<close>.\<close>

fun py_join :: "string \<Rightarrow> string list \<Rightarrow> string" where
  "py_join sep [] = []"
| "py_join sep [p] = p"
| "py_join sep (p # q # ps) = p @ sep @ py_join sep (q # ps)"

text \<open>Iterating over a \<open>str\<close> yields its characters as one-character strings.\<close>

definition chars_of :: "string \<Rightarrow> string list" where
  "chars_of s = map (\<lambda>c. [c]) s"

text \<open>
  The white space of \<open>str.strip()\<close>, each character in UTF-8: U+0009 to U+000D,
  U+001C to U+0020, U+0085, U+00A0, U+1680, U+2000 to U+200A, U+2028, U+2029, U+202F,
  U+205F and U+3000.
\<close>

definition whitespace :: "string list" where
  "whitespace =
     map (\<lambda>c. [c])
       [CHR 0x09, CHR 0x0A, CHR 0x0B, CHR 0x0C, CHR 0x0D,
        CHR 0x1C, CHR 0x1D, CHR 0x1E, CHR 0x1F, CHR 0x20]
     @ [[CHR 0xC2, CHR 0x85], [CHR 0xC2, CHR 0xA0], [CHR 0xE1, CHR 0x9A, CHR 0x80]]
     @ map (\<lambda>c. [CHR 0xE2, CHR 0x80, c])
         [CHR 0x80, CHR 0x81, CHR 0x82, CHR 0x83, CHR 0x84, CHR 0x85, CHR 0x86, CHR 0x87,
          CHR 0x88, CHR 0x89, CHR 0x8A, CHR 0xA8, CHR 0xA9, CHR 0xAF]
     @ [[CHR 0xE2, CHR 0x81, CHR 0x9F], [CHR 0xE3, CHR 0x80, CHR 0x80]]"

text \<open>Removing leading occurrences of the given non-empty strings, as long as there is one.\<close>

function strip_prefixes :: "string list \<Rightarrow> string \<Rightarrow> string" where
  "strip_prefixes wss s =
     (case find (\<lambda>ws. ws \<noteq> [] \<and> prefix ws s) wss of
        None \<Rightarrow> s
      | Some ws \<Rightarrow> strip_prefixes wss (drop (length ws) s))"
  by pat_completeness auto
termination
proof (relation "measure (\<lambda>(wss, s). length s)")
  show "wf (measure (\<lambda>(wss, s). length s))"
    by simp
next
  fix wss :: "string list" and s ws :: string
  assume "find (\<lambda>ws. ws \<noteq> [] \<and> prefix ws s) wss = Some ws"
  then have "ws \<noteq> [] \<and> prefix ws s"
    by (auto simp: find_Some_iff)
  then have "s \<noteq> [] \<and> 0 < length ws"
    by auto
  then show "((wss, drop (length ws) s), (wss, s)) \<in> measure (\<lambda>(wss, s). length s)"
    by simp
qed

declare strip_prefixes.simps [simp del]

definition strip :: "string \<Rightarrow> string" where
  "strip s = rev (strip_prefixes (map rev whitespace) (rev (strip_prefixes whitespace s)))"

text \<open>
  The strict UTF-8 decoder: no overlong form, no surrogate, nothing above U+10FFFF.
\<close>

definition continuation :: "nat \<Rightarrow> bool" where
  "continuation b = (128 \<le> b \<and> b \<le> 191)"

fun valid_utf8_bytes :: "nat list \<Rightarrow> bool" where
  "valid_utf8_bytes [] = True"
| "valid_utf8_bytes (b # bs) =
     (if b < 128 then valid_utf8_bytes bs
      else if 194 \<le> b \<and> b \<le> 223 then
        (case bs of
           b1 # r \<Rightarrow> continuation b1 \<and> valid_utf8_bytes r
         | _ \<Rightarrow> False)
      else if 224 \<le> b \<and> b \<le> 239 then
        (case bs of
           b1 # b2 # r \<Rightarrow>
             (if b = 224 then 160 \<le> b1 \<and> b1 \<le> 191
              else if b = 237 then 128 \<le> b1 \<and> b1 \<le> 159
              else continuation b1)
             \<and> continuation b2 \<and> valid_utf8_bytes r
         | _ \<Rightarrow> False)
      else if 240 \<le> b \<and> b \<le> 244 then
        (case bs of
           b1 # b2 # b3 # r \<Rightarrow>
             (if b = 240 then 144 \<le> b1 \<and> b1 \<le> 191
              else if b = 244 then 128 \<le> b1 \<and> b1 \<le> 143
              else continuation b1)
             \<and> continuation b2 \<and> continuation b3 \<and> valid_utf8_bytes r
         | _ \<Rightarrow> False)
      else False)"

definition valid_utf8 :: "string \<Rightarrow> bool" where
  "valid_utf8 s = valid_utf8_bytes (map of_char s)"

text \<open>
  Reading in text mode with universal newlines: \<open>\r\n\<close> and a lone \<open>\r\<close> become
  \<open>\n\<close>.
\<close>

fun universal_newlines :: "string \<Rightarrow> string" where
  "universal_newlines [] = []"
| "universal_newlines [c] = (if c = CHR 0x0D then [newline] else [c])"
| "universal_newlines (c # d # ds) =
     (if c = CHR 0x0D
      then (if d = newline then newline # universal_newlines ds
            else newline # universal_newlines (d # ds))
      else c # universal_newlines (d # ds))"

text \<open>\<open>str(i)\<close> for a non-negative integer.\<close>

definition digit_char :: "nat \<Rightarrow> char" where
  "digit_char d = char_of (48 + d)"

fun str_nat :: "nat \<Rightarrow> string" where
  "str_nat n =
     (if n < 10 then [digit_char n]
      else str_nat (n div 10) @ [digit_char (n mod 10)])"

declare str_nat.simps [simp del]

section \<open>\<open>find\<close> (\<open>_add.py\<close>, lines 18 to 34)\<close>

text \<open>\<open>next((item for item in items if cb(item)), None)\<close>.\<close>

fun find_item :: "('a \<Rightarrow> bool) \<Rightarrow> 'a list \<Rightarrow> 'a option" where
  "find_item cb [] = None"
| "find_item cb (item # items) = (if cb item then Some item else find_item cb items)"

section \<open>Documents, cells and references\<close>

type_synonym mapping = "(string \<times> string) list"

record cell =
  cell_type :: string
  source :: string
  metadata :: mapping
  hidden :: bool

text \<open>The Document as the notebook file holds it: the cells in order, by value.\<close>

record document =
  doc_cells :: "cell list"
  doc_metadata :: mapping

text \<open>
  Modelled from the spec: \<open>code_cell\<close> of \<open>juv/_nbutils.py\<close> is not among the sources.
  The spec gives \<open>new_code_cell(source, hidden) -> Cell\<close> and the fields of a Cell.
\<close>

definition code_cell :: "string \<Rightarrow> bool \<Rightarrow> cell" where
  "code_cell src h = \<lparr>cell_type = ''code'', source = src, metadata = [], hidden = h\<rparr>"

text \<open>
  In memory every cell is an object of its own. The heap is the list of the cell
  objects allocated so far, an address is a position in it, and the notebook's
  \<open>cells\<close> list holds addresses. A variable bound to a cell holds its address, so an
  assignment to \<open>cell["source"]\<close> is seen through the notebook.
\<close>

type_synonym addr = nat
type_synonym heap = "cell list"

record notebook =
  cells :: "addr list"
  nb_metadata :: mapping

fun addrs_from :: "addr \<Rightarrow> 'a list \<Rightarrow> addr list" where
  "addrs_from a [] = []"
| "addrs_from a (x # xs) = a # addrs_from (Suc a) xs"

text \<open>Reading a Document allocates its cells at the addresses \<open>0, 1, ...\<close> in order.\<close>

definition load :: "document \<Rightarrow> notebook \<times> heap" where
  "load d = (\<lparr>cells = addrs_from 0 (doc_cells d), nb_metadata = doc_metadata d\<rparr>, doc_cells d)"

text \<open>The Document that a notebook denotes: what serialising it writes.\<close>

definition snapshot :: "notebook \<Rightarrow> heap \<Rightarrow> document" where
  "snapshot nb h = \<lparr>doc_cells = map (\<lambda>a. h ! a) (cells nb), doc_metadata = nb_metadata nb\<rparr>"

definition wf_notebook :: "notebook \<Rightarrow> heap \<Rightarrow> bool" where
  "wf_notebook nb h = (distinct (cells nb) \<and> list_all (\<lambda>a. a < length h) (cells nb))"

text \<open>\<open>cell["source"] = v\<close> through a reference.\<close>

definition set_source :: "addr \<Rightarrow> string \<Rightarrow> heap \<Rightarrow> heap" where
  "set_source a v h = h[a := (h ! a)\<lparr>source := v\<rparr>]"

section \<open>Locating or creating the manifest cell (\<open>add_notebook\<close>, lines 119 to 129)\<close>

text \<open>
  The callback of lines 120 to 123. The inline-metadata test \<open>includes_inline_metadata\<close>
  of \<open>juv/_pep723.py\<close> is not among the sources and is the parameter \<open>p\<close>.
\<close>

definition is_manifest :: "(string \<Rightarrow> bool) \<Rightarrow> cell \<Rightarrow> bool" where
  "is_manifest p c = (cell_type c = ''code'' \<and> p (py_join [] (chars_of (source c))))"

definition locate_or_create ::
  "(string \<Rightarrow> bool) \<Rightarrow> notebook \<Rightarrow> heap \<Rightarrow> addr \<times> notebook \<times> heap" where
  "locate_or_create p nb h =
     (case find_item (\<lambda>a. is_manifest p (h ! a)) (cells nb) of
        Some a \<Rightarrow> (a, nb, h)
      | None \<Rightarrow>
          (let h' = h @ [code_cell [] True];
               nb' = nb\<lparr>cells := length h # cells nb\<rparr>
           in (hd (cells nb'), nb', h')))"

text \<open>
  Modelled from the spec: the body of \<open>includes_inline_metadata\<close> is not among the
  sources. The spec calls the manifest cell the one whose source text contains an
  inline-metadata marker block, a comment block in the style of PEP 723: a line
  \<open># /// script\<close> opens it and a later line \<open># ///\<close> closes it.
\<close>

definition includes_inline_metadata :: "string \<Rightarrow> bool" where
  "includes_inline_metadata text =
     (let ls = dropWhile (\<lambda>l. l \<noteq> ''# /// script'') (split_on newline text)
      in ls \<noteq> [] \<and> ''# ///'' \<in> set (tl ls))"

section \<open>Paths\<close>

text \<open>
  A \<open>pathlib\<close> path is modelled by its text, as \<open>str(path)\<close> gives it, with \<open>/\<close> as
  the separator. \<open>name\<close>, \<open>suffix\<close>, \<open>with_suffix\<close>, \<open>parent\<close> and \<open>/\<close> follow
  \<open>pathlib.PurePosixPath\<close>.
\<close>

definition path_name :: "string \<Rightarrow> string" where
  "path_name p = (if p = ''.'' then [] else rev (takeWhile (\<lambda>c. c \<noteq> CHR ''/'') (rev p)))"

text \<open>\<open>s.rfind(c)\<close>: the last position of \<open>c\<close>, or \<open>-1\<close>.\<close>

definition rfind :: "char \<Rightarrow> string \<Rightarrow> int" where
  "rfind c s =
     (if c \<in> set s then int (length s) - 1 - int (length (takeWhile (\<lambda>x. x \<noteq> c) (rev s)))
      else - 1)"

definition suffix_of :: "string \<Rightarrow> string" where
  "suffix_of p =
     (let name = path_name p; i = rfind (CHR ''.'') name
      in if 0 < i \<and> i < int (length name) - 1 then drop (nat i) name else [])"

definition parent :: "string \<Rightarrow> string" where
  "parent p =
     (let d = take (length p - length (path_name p)) p
      in if d = [] then ''.'' else if d = ''/'' then ''/'' else butlast d)"

text \<open>
  The extension of \<open>os.path.splitext\<close>: from the last dot of the last component,
  unless only dots come before it there.
\<close>

definition splitext_ext :: "string \<Rightarrow> string" where
  "splitext_ext p =
     (let sepIndex = rfind (CHR ''/'') p; dotIndex = rfind (CHR ''.'') p
      in if sepIndex < dotIndex
            \<and> list_ex (\<lambda>c. c \<noteq> CHR ''.'')
                 (take (nat dotIndex - nat (sepIndex + 1)) (drop (nat (sepIndex + 1)) p))
         then drop (nat dotIndex) p else [])"

definition joinpath :: "string \<Rightarrow> string \<Rightarrow> string" where
  "joinpath d n =
     (if d = ''.'' then n else if d = ''/'' then d @ n else d @ ''/'' @ n)"

section \<open>Errors and the world outside the process\<close>

datatype error =
    RuntimeError string
  | CalledProcessError int
  | ValueError string
  | FileNotFoundError string
  | NotebookFormatError string
  | UnicodeDecodeError
  | SystemExit int

definition decode :: "string \<Rightarrow> error + string" where
  "decode bs = (if valid_utf8 bs then Inr bs else Inl UnicodeDecodeError)"

definition with_suffix :: "string \<Rightarrow> string \<Rightarrow> error + string" where
  "with_suffix p suf =
     (if CHR ''/'' \<in> set suf then Inl (ValueError ''Invalid suffix'')
      else if (suf \<noteq> [] \<and> \<not> prefix ''.'' suf) \<or> suf = ''.'' then Inl (ValueError ''Invalid suffix'')
      else
        (let name = path_name p
         in if name = [] then Inl (ValueError ''empty name'')
            else
              (let old_suffix = suffix_of p;
                   name' = (if old_suffix = [] then name @ suf
                            else take (length name - length old_suffix) name @ suf)
               in Inr (take (length p - length name) p @ name'))))"

type_synonym fs = "string \<rightharpoonup> string"

text \<open>
  The world: the bytes of every file by path, the current directory, and the log of
  the subprocess invocations made so far (argument vector and standard input), which
  only records what was run.
\<close>

record world =
  files :: fs
  cwd :: string
  calls :: "(string list \<times> string) list"

record completed =
  returncode :: int
  stdout :: string
  stderr :: string

text \<open>
  What the code takes from its collaborators. Nothing is assumed of them.
  \<^item> \<open>inline_metadata\<close>: the inline-metadata test.
  \<^item> \<open>find_uv_bin\<close>: the location of the package manager's binary.
  \<^item> \<open>run\<close>: what a subprocess does, from argument vector, standard input and files
    to its result, with the captured output as bytes, and the files it leaves.
  \<^item> \<open>held\<close>: the bytes that a file this process holds open has after that
    subprocess, by the path it was opened under. A tool that writes in place leaves
    there what it leaves at the path; one that replaces the file leaves the old bytes.
  \<^item> \<open>jupytext_reads\<close>: how \<open>jupytext\<close> reads the bytes of a file as a Document,
    given the path's extension, from which it takes the format; \<open>None\<close> where it
    raises (an extension that is no notebook extension, bytes it cannot read).
  \<^item> \<open>dump_ipynb\<close>: how a Document is written as a notebook file.
  \<^item> \<open>mktemp\<close>: the name a temporary file gets, from the files present, the
    directory and the suffix.
  \<^item> \<open>missing_ok\<close>: whether closing a temporary file that is no longer there passes
    silently (Python 3.12 and later) or raises \<open>FileNotFoundError\<close> (before).
\<close>

record env =
  inline_metadata :: "string \<Rightarrow> bool"
  find_uv_bin :: string
  run :: "string list \<Rightarrow> string \<Rightarrow> fs \<Rightarrow> completed \<times> fs"
  held :: "string list \<Rightarrow> string \<Rightarrow> fs \<Rightarrow> string \<Rightarrow> string"
  jupytext_reads :: "string \<Rightarrow> string \<Rightarrow> document option"
  dump_ipynb :: "document \<Rightarrow> string"
  mktemp :: "fs \<Rightarrow> string \<Rightarrow> string \<Rightarrow> string"
  missing_ok :: bool

definition subprocess_run :: "env \<Rightarrow> string list \<Rightarrow> string \<Rightarrow> world \<Rightarrow> completed \<times> world" where
  "subprocess_run E args inp w =
     (let (r, f') = run E args inp (files w)
      in (r, w\<lparr>files := f', calls := calls w @ [(args, inp)]\<rparr>))"

text \<open>
  Modelled from the spec: \<open>uv\<close> of \<open>juv/_uv.py\<close> is not among the sources. The spec has the
  package manager invoked as a subprocess on the argument vector, exit code 0 a success
  and any other one fatal for the invocation; with \<open>check\<close> the failure is raised.
\<close>

definition uv :: "env \<Rightarrow> string list \<Rightarrow> bool \<Rightarrow> world \<Rightarrow> (error + completed) \<times> world" where
  "uv E args check w =
     (let (r, w') = subprocess_run E (find_uv_bin E # args) [] w
      in (if check \<and> returncode r \<noteq> 0 then Inl (CalledProcessError (returncode r)) else Inr r, w'))"

text \<open>
  \<open>Path(p).read_text()\<close>: the file is decoded (as UTF-8, the encoding of the process
  being taken to be that) and read with universal newlines.
\<close>

definition read_text :: "string \<Rightarrow> world \<Rightarrow> error + string" where
  "read_text p w =
     (case files w p of
        None \<Rightarrow> Inl (FileNotFoundError p)
      | Some bs \<Rightarrow>
          (case decode bs of
             Inl e \<Rightarrow> Inl e
           | Inr s \<Rightarrow> Inr (universal_newlines s)))"

definition exists :: "string \<Rightarrow> world \<Rightarrow> bool" where
  "exists p w = (files w p \<noteq> None)"

definition unlink :: "string \<Rightarrow> world \<Rightarrow> world" where
  "unlink p w = w\<lparr>files := (files w)(p := None)\<rparr>"

text \<open>
  \<open>jupytext.read(path, fmt="ipynb")\<close>: for a path, \<open>jupytext\<close> replaces the
  extension of the format by the one \<open>os.path.splitext\<close> gives for the path.
\<close>

definition read_notebook :: "env \<Rightarrow> string \<Rightarrow> world \<Rightarrow> error + document" where
  "read_notebook E p w =
     (case files w p of
        None \<Rightarrow> Inl (FileNotFoundError p)
      | Some bs \<Rightarrow>
          (case jupytext_reads E (splitext_ext p) bs of
             None \<Rightarrow> Inl (NotebookFormatError p)
           | Some d \<Rightarrow> Inr d))"

text \<open>
  Leaving the \<open>with\<close> block of a \<open>NamedTemporaryFile\<close>, with the result of the block:
  the file is closed and removed, and a failure of that replaces the result.
\<close>

definition close_tempfile :: "env \<Rightarrow> string \<Rightarrow> world \<Rightarrow> error option \<times> world" where
  "close_tempfile E f w =
     (if files w f = None
      then (if missing_ok E then None else Some (FileNotFoundError f), w)
      else (None, unlink f w))"

definition leave_with ::
  "env \<Rightarrow> string \<Rightarrow> (error + 'a) \<times> world \<Rightarrow> (error + 'a) \<times> world" where
  "leave_with E f rw =
     (case close_tempfile E f (snd rw) of
        (Some e, w') \<Rightarrow> (Inl e, w')
      | (None, w') \<Rightarrow> (fst rw, w'))"

text \<open>
  Modelled from the spec: \<open>write_ipynb\<close> and \<open>new_notebook\<close> of \<open>juv/_nbutils.py\<close> are not
  among the sources. The spec gives \<open>write(Document, path)\<close> and
  \<open>new_document(cells) -> Document\<close>.
\<close>

definition write_ipynb :: "env \<Rightarrow> document \<Rightarrow> string \<Rightarrow> world \<Rightarrow> (error + unit) \<times> world" where
  "write_ipynb E d p w = (Inr (), w\<lparr>files := (files w)(p \<mapsto> dump_ipynb E d)\<rparr>)"

definition new_notebook :: "cell list \<Rightarrow> document" where
  "new_notebook cs = \<lparr>doc_cells = cs, doc_metadata = []\<rparr>"

section \<open>\<open>uv_pip_compile\<close> (\<open>_add.py\<close>, lines 37 to 71)\<close>

text \<open>\<open>*([...] if x else [])\<close> for an optional string: \<open>None\<close> and \<open>""\<close> are both false.\<close>

definition when_set :: "string option \<Rightarrow> (string \<Rightarrow> string list) \<Rightarrow> string list" where
  "when_set x f = (case x of None \<Rightarrow> [] | Some s \<Rightarrow> if s \<noteq> [] then f s else [])"

text \<open>The loop of lines 48 to 50, on the text accumulated so far.\<close>

fun append_packages :: "string list \<Rightarrow> string \<Rightarrow> string" where
  "append_packages [] requirements_txt = requirements_txt"
| "append_packages (package # packages) requirements_txt =
     append_packages packages
       (if \<not> str_contains package requirements_txt
        then requirements_txt @ package @ [newline]
        else requirements_txt)"

definition pip_compile_args :: "env \<Rightarrow> bool \<Rightarrow> string option \<Rightarrow> string list" where
  "pip_compile_args E no_deps exclude_newer =
     [find_uv_bin E, ''pip'', ''compile'']
     @ (if no_deps then [''--no-deps''] else [])
     @ when_set exclude_newer (\<lambda>d. [''--exclude-newer='' @ d])
     @ [''-'']"

definition uv_pip_compile ::
  "env \<Rightarrow> string list \<Rightarrow> string option \<Rightarrow> bool \<Rightarrow> string option \<Rightarrow> world
     \<Rightarrow> (error + string list) \<times> world" where
  "uv_pip_compile E packages requirements no_deps exclude_newer w =
     (case (case requirements of None \<Rightarrow> Inr [] | Some r \<Rightarrow> read_text r w) of
        Inl e \<Rightarrow> (Inl e, w)
      | Inr txt \<Rightarrow>
          (let requirements_txt = append_packages packages txt;
               (result, w') =
                  subprocess_run E (pip_compile_args E no_deps exclude_newer) requirements_txt w
           in if returncode result \<noteq> 0
              then (case decode (stderr result) of
                      Inl e \<Rightarrow> (Inl e, w')
                    | Inr msg \<Rightarrow> (Inl (RuntimeError msg), w'))
              else (case decode (stdout result) of
                      Inl e \<Rightarrow> (Inl e, w')
                    | Inr out \<Rightarrow>
                        (Inr (filter (str_contains ''=='') (split_on newline out)), w'))))"

section \<open>\<open>uv_script\<close> (\<open>_add.py\<close>, lines 74 to 101)\<close>

text \<open>The keyword arguments that \<open>add\<close>, \<open>add_notebook\<close> and \<open>uv_script\<close> share.\<close>

record kwargs =
  packages :: "string list"
  requirements :: "string option"
  extras :: "string list option"
  editable :: bool
  branch :: "string option"
  rev' :: "string option"
  tag :: "string option"
  exclude_newer :: "string option"

definition uv_script_args :: "string \<Rightarrow> kwargs \<Rightarrow> string list" where
  "uv_script_args script k =
     [''add'']
     @ when_set (requirements k) (\<lambda>r. [''--requirements'', r])
     @ map (\<lambda>extra. ''--extra='' @ extra) (case extras k of None \<Rightarrow> [] | Some es \<Rightarrow> es)
     @ (if editable k then [''--editable''] else [])
     @ when_set (tag k) (\<lambda>t. [''--tag='' @ t])
     @ when_set (branch k) (\<lambda>b. [''--branch='' @ b])
     @ when_set (rev' k) (\<lambda>r. [''--rev='' @ r])
     @ when_set (exclude_newer k) (\<lambda>d. [''--exclude-newer='' @ d])
     @ [''--script'', script]
     @ packages k"

definition uv_script :: "env \<Rightarrow> string \<Rightarrow> kwargs \<Rightarrow> world \<Rightarrow> (error + unit) \<times> world" where
  "uv_script E script k w =
     (case uv E (uv_script_args script k) True w of
        (Inl e, w') \<Rightarrow> (Inl e, w')
      | (Inr r, w') \<Rightarrow> (Inr (), w'))"

section \<open>\<open>add_notebook\<close> and \<open>add\<close> (\<open>_add.py\<close>, lines 104 to 186)\<close>

text \<open>
  The temporary file lives for the \<open>with\<close> block. The stripped source is written to
  it, the package manager is run on it, and it is read back from the start through the
  handle that wrote it: decoded as UTF-8, with universal newlines.
\<close>

definition add_notebook :: "env \<Rightarrow> string \<Rightarrow> kwargs \<Rightarrow> world \<Rightarrow> (error + unit) \<times> world" where
  "add_notebook E path k w =
     (case read_notebook E path w of
        Inl e \<Rightarrow> (Inl e, w)
      | Inr d \<Rightarrow>
          (let (nb, h) = load d;
               (cell, nb1, h1) = locate_or_create (inline_metadata E) nb h;
               f = mktemp E (files w) (parent path) ''.py'';
               w1 = w\<lparr>files := (files w)(f \<mapsto> strip (source (h1 ! cell)))\<rparr>
           in case leave_with E f
                     (case uv_script E f k w1 of
                        (Inl e, w2) \<Rightarrow> (Inl e, w2)
                      | (Inr u, w2) \<Rightarrow>
                          (case decode (held E (find_uv_bin E # uv_script_args f k) []
                                          (files w1) f) of
                             Inl e \<Rightarrow> (Inl e, w2)
                           | Inr s \<Rightarrow>
                               (Inr (set_source cell (strip (universal_newlines s)) h1), w2))) of
                (Inl e, w3) \<Rightarrow> (Inl e, w3)
              | (Inr h2, w3) \<Rightarrow>
                  (case with_suffix path ''.ipynb'' of
                     Inl e \<Rightarrow> (Inl e, w3)
                   | Inr out \<Rightarrow> write_ipynb E (snapshot nb1 h2) out w3)))"

definition add :: "env \<Rightarrow> string \<Rightarrow> kwargs \<Rightarrow> bool \<Rightarrow> world \<Rightarrow> (error + unit) \<times> world" where
  "add E path k pin w =
     (case (if pin
            then (case uv_pip_compile E (packages k) (requirements k) True (exclude_newer k) w of
                    (Inl e, w') \<Rightarrow> (Inl e, w')
                  | (Inr pinned, w') \<Rightarrow> (Inr (k\<lparr>packages := pinned, requirements := None\<rparr>), w'))
            else (Inr k, w)) of
        (Inl e, w') \<Rightarrow> (Inl e, w')
      | (Inr k', w') \<Rightarrow>
          (if suffix_of path = ''.ipynb'' then add_notebook E path k' w'
           else uv_script E path k' w'))"

section \<open>\<open>_init.py\<close>\<close>

definition new_notebook_with_inline_metadata ::
  "env \<Rightarrow> string \<Rightarrow> string option \<Rightarrow> world \<Rightarrow> (error + document) \<times> world" where
  "new_notebook_with_inline_metadata E directory python w =
     (let f = mktemp E (files w) directory ''.py'';
          w1 = w\<lparr>files := (files w)(f \<mapsto> [])\<rparr>;
          args = [''init''] @ when_set python (\<lambda>v. [''--python'', v]) @ [''--script'', f]
      in leave_with E f
           (case uv E args True w1 of
              (Inl e, w2) \<Rightarrow> (Inl e, w2)
            | (Inr r, w2) \<Rightarrow>
                (case decode (held E (find_uv_bin E # args) [] (files w1) f) of
                   Inl e \<Rightarrow> (Inl e, w2)
                 | Inr contents \<Rightarrow>
                     (Inr (new_notebook
                            [code_cell (strip (universal_newlines contents)) True,
                             code_cell [] False]),
                      w2))))"

definition untitled :: "nat \<Rightarrow> string" where
  "untitled i = ''Untitled'' @ str_nat i @ ''.ipynb''"

text \<open>The loop of lines 54 to 56 over the rest of \<open>range(1, 100)\<close>.\<close>

fun untitled_loop :: "string \<Rightarrow> world \<Rightarrow> nat list \<Rightarrow> string option" where
  "untitled_loop directory w [] = None"
| "untitled_loop directory w (i # is) =
     (if \<not> exists (joinpath directory (untitled i)) w then Some (joinpath directory (untitled i))
      else untitled_loop directory w is)"

definition get_first_non_conflicting_untitled_ipynb :: "string \<Rightarrow> world \<Rightarrow> error + string" where
  "get_first_non_conflicting_untitled_ipynb directory w =
     (if \<not> exists (joinpath directory ''Untitled.ipynb'') w
      then Inr (joinpath directory ''Untitled.ipynb'')
      else (case untitled_loop directory w [1..<100] of
              Some p \<Rightarrow> Inr p
            | None \<Rightarrow> Inl (ValueError ''Could not find an available UntitledX.ipynb'')))"

definition default_kwargs :: "string list \<Rightarrow> kwargs" where
  "default_kwargs pkgs =
     \<lparr>packages = pkgs, requirements = None, extras = None, editable = False,
      branch = None, rev' = None, tag = None, exclude_newer = None\<rparr>"

definition init ::
  "env \<Rightarrow> string option \<Rightarrow> string option \<Rightarrow> string list \<Rightarrow> world \<Rightarrow> (error + string) \<times> world" where
  "init E path python pkgs w =
     (case (case path of
              None \<Rightarrow> get_first_non_conflicting_untitled_ipynb (cwd w) w
            | Some p \<Rightarrow> Inr p) of
        Inl e \<Rightarrow> (Inl e, w)
      | Inr p \<Rightarrow>
          (if suffix_of p \<noteq> ''.ipynb'' then (Inl (SystemExit 1), w)
           else
             (case new_notebook_with_inline_metadata E (parent p) python w of
                (Inl e, w1) \<Rightarrow> (Inl e, w1)
              | (Inr d, w1) \<Rightarrow>
                  (case write_ipynb E d p w1 of
                     (Inl e, w2) \<Rightarrow> (Inl e, w2)
                   | (Inr u, w2) \<Rightarrow>
                       (if length pkgs > 0
                        then (case add E p (default_kwargs pkgs) False w2 of
                                (Inl e, w3) \<Rightarrow> (Inl e, w3)
                              | (Inr u', w3) \<Rightarrow> (Inr p, w3))
                        else (Inr p, w2))))))"

section \<open>The claims in the spec's words\<close>

text \<open>
  The combined requirements text: the existing text, then each requested package in
  order, appended as its own line, unless its literal string already occurs (as a
  sublist, the notion of the library) somewhere in the text accumulated so far. A
  package appended as its own line starts a line and ends it: a text that does not
  end a line is ended first.
\<close>

definition own_line :: "string \<Rightarrow> string \<Rightarrow> string" where
  "own_line txt p =
     (if txt = [] \<or> last txt = newline then txt else txt @ [newline]) @ p @ [newline]"

definition spec_combined_text :: "string \<Rightarrow> string list \<Rightarrow> string" where
  "spec_combined_text existing pkgs =
     foldl (\<lambda>txt p. if sublist p txt then txt else own_line txt p) existing pkgs"

text \<open>
  The argument vector of the spec's template
  \<open>add [--requirements <file>] [--extra=<e>]* [--editable] [--tag=<t>] [--branch=<b>]
  [--rev=<r>] [--exclude-newer=<d>] --script <file> <pkg>...\<close>,
  where an optional parameter is either supplied with a value or omitted.
\<close>

definition spec_flag :: "string option \<Rightarrow> (string \<Rightarrow> string list) \<Rightarrow> string list" where
  "spec_flag x f = (case x of None \<Rightarrow> [] | Some v \<Rightarrow> f v)"

definition spec_add_template ::
  "string option \<Rightarrow> string list \<Rightarrow> bool \<Rightarrow> string option \<Rightarrow> string option \<Rightarrow> string option
     \<Rightarrow> string option \<Rightarrow> string \<Rightarrow> string list \<Rightarrow> string list" where
  "spec_add_template req exs ed t b r d script pkgs =
     ''add'' # spec_flag req (\<lambda>file. [''--requirements'', file])
     @ map (\<lambda>e. ''--extra='' @ e) exs
     @ (if ed then [''--editable''] else [])
     @ spec_flag t (\<lambda>v. [''--tag='' @ v])
     @ spec_flag b (\<lambda>v. [''--branch='' @ v])
     @ spec_flag r (\<lambda>v. [''--rev='' @ v])
     @ spec_flag d (\<lambda>v. [''--exclude-newer='' @ v])
     @ [''--script'', script] @ pkgs"

text \<open>
  The truth test of Python on an optional string: \<open>None\<close> and the empty string both
  count as omitted.
\<close>

definition supplied :: "string option \<Rightarrow> string option" where
  "supplied x = (case x of None \<Rightarrow> None | Some s \<Rightarrow> if s = [] then None else Some s)"

text \<open>
  The names the spec lists: \<open>Untitled.ipynb\<close>, \<open>Untitled1.ipynb\<close>, ...,
  \<open>Untitled99.ipynb\<close>. The numbers are written out: the one-digit numbers 1 to 9,
  then for each tens digit 1 to 9 the units digits 0 to 9.
\<close>

definition spec_numbers :: "string list" where
  "spec_numbers =
     map (\<lambda>u. [u]) ''123456789''
     @ concat (map (\<lambda>t. map (\<lambda>u. [t, u]) ''0123456789'') ''123456789'')"

definition spec_untitled_names :: "string list" where
  "spec_untitled_names =
     ''Untitled.ipynb'' # map (\<lambda>n. ''Untitled'' @ n @ ''.ipynb'') spec_numbers"

section \<open>Example environments\<close>

text \<open>
  A package manager for the examples. Its compile mode prints a header line and one pin;
  its other modes write a manifest into the script named after \<open>--script\<close> and fail
  when there is no such file.
\<close>

fun script_of :: "string list \<Rightarrow> string option" where
  "script_of (a # b # as) = (if a = ''--script'' then Some b else script_of (b # as))"
| "script_of as = None"

definition example_manifest :: string where
  "example_manifest = ''# /// script'' @ [newline] @ ''# dependencies = []'' @ [newline] @ ''# ///''"

definition example_run :: "string list \<Rightarrow> string \<Rightarrow> fs \<Rightarrow> completed \<times> fs" where
  "example_run args inp f =
     (if ''compile'' \<in> set args
      then (\<lparr>returncode = 0,
             stdout = ''# pinned by uv'' @ [newline] @ ''requests==2.31.0'' @ [newline],
             stderr = []\<rparr>, f)
      else (case script_of args of
              None \<Rightarrow> (\<lparr>returncode = 2, stdout = [], stderr = ''error: no script''\<rparr>, f)
            | Some s \<Rightarrow>
                (case f s of
                   None \<Rightarrow> (\<lparr>returncode = 2, stdout = [], stderr = ''error: no such file''\<rparr>, f)
                 | Some old \<Rightarrow>
                     (\<lparr>returncode = 0, stdout = [], stderr = []\<rparr>,
                      f(s \<mapsto> example_manifest @ [newline])))))"

definition example_doc :: document where
  "example_doc =
     \<lparr>doc_cells =
        [\<lparr>cell_type = ''markdown'', source = ''# Title'', metadata = [], hidden = False\<rparr>,
         \<lparr>cell_type = ''code'', source = example_manifest @ [newline] @ ''import os'',
           metadata = [], hidden = True\<rparr>,
         \<lparr>cell_type = ''code'', source = ''print(1)'', metadata = [(''tags'', ''demo'')],
           hidden = False\<rparr>],
      doc_metadata = [(''kernelspec'', ''python3'')]\<rparr>"

definition example_dump :: "document \<Rightarrow> string" where
  "example_dump d = concat (map (\<lambda>c. cell_type c @ '':'' @ source c @ [newline]) (doc_cells d))"

definition example_reads :: "string \<Rightarrow> string \<Rightarrow> document option" where
  "example_reads ext bs =
     (if (ext = ''.ipynb'' \<or> ext = ''.md'') \<and> bs = ''{example}'' then Some example_doc else None)"

text \<open>The example package manager writes in place: an open file holds what the path holds.\<close>

definition example_held :: "string list \<Rightarrow> string \<Rightarrow> fs \<Rightarrow> string \<Rightarrow> string" where
  "example_held args inp f p = (case snd (example_run args inp f) p of None \<Rightarrow> [] | Some bs \<Rightarrow> bs)"

definition example_env :: env where
  "example_env =
     \<lparr>inline_metadata = includes_inline_metadata,
      find_uv_bin = ''uv'',
      run = example_run,
      held = example_held,
      jupytext_reads = example_reads,
      dump_ipynb = example_dump,
      mktemp = (\<lambda>f d suf. joinpath d (''tmpjuv'' @ suf)),
      missing_ok = True\<rparr>"



definition including_env :: env where
  "including_env =
     example_env\<lparr>run := (\<lambda>args inp f.
        (\<lparr>returncode = 0,
          stdout = (if sublist ''-r base.txt'' inp \<and> f ''base.txt'' = Some (''numpy'' @ [newline])
                    then ''numpy==1.26.4'' @ [newline] else [])
                   @ ''requests==2.31.0'' @ [newline],
          stderr = []\<rparr>, f))\<rparr>"

definition including_world :: world where
  "including_world =
     \<lparr>files = [''requirements.txt'' \<mapsto> ''-r base.txt'' @ [newline],
               ''base.txt'' \<mapsto> ''numpy'' @ [newline],
               ''script.py'' \<mapsto> ''print(1)''],
      cwd = ''/work'', calls = []\<rparr>"

definition example_world :: world where
  "example_world = \<lparr>files = [''nb.ipynb'' \<mapsto> ''{example}'', ''nb.txt'' \<mapsto> ''{example}''], cwd = ''/work'', calls = []\<rparr>"

definition txt_world :: world where
  "txt_world = \<lparr>files = [''nb.txt'' \<mapsto> ''{example}''], cwd = ''/work'', calls = []\<rparr>"

definition md_world :: world where
  "md_world = \<lparr>files = [''nb.md'' \<mapsto> ''{example}''], cwd = ''/work'', calls = []\<rparr>"

definition empty_world :: world where
  "empty_world = \<lparr>files = Map.empty, cwd = ''/work'', calls = []\<rparr>"

definition unterminated_world :: world where
  "unterminated_world =
     \<lparr>files = [''requirements.txt'' \<mapsto> ''requests>=2'' @ [newline] @ ''numpy''],
      cwd = ''/work'', calls = []\<rparr>"

section \<open>Facts about the string and list helpers\<close>

lemma find_item_find: "find_item cb xs = List.find cb xs"
  by (induction xs) auto

lemma find_item_None: "find_item cb xs = None \<longleftrightarrow> (\<forall>x\<in>set xs. \<not> cb x)"
  by (induction xs) auto

lemma find_item_first:
  "find_item cb xs = Some x \<longleftrightarrow>
     (\<exists>i<length xs. cb (xs ! i) \<and> x = xs ! i \<and> (\<forall>j<i. \<not> cb (xs ! j)))"
  by (simp add: find_item_find find_Some_iff)

lemma join_chars: "py_join [] (chars_of s) = s"
proof (induction s rule: induct_list012)
  case 1
  show ?case by (simp add: chars_of_def)
next
  case (2 x)
  show ?case by (simp add: chars_of_def)
next
  case (3 x y zs)
  then show ?case by (simp add: chars_of_def)
qed

lemma is_manifest_iff: "is_manifest p c \<longleftrightarrow> cell_type c = ''code'' \<and> p (source c)"
  by (simp add: is_manifest_def join_chars)

lemma addrs_from_upt: "addrs_from a xs = [a..<a + length xs]"
  by (induction xs arbitrary: a) (auto simp: upt_rec)

lemma snapshot_load: "snapshot (fst (load d)) (snd (load d)) = d"
  by (simp add: snapshot_def load_def addrs_from_upt map_nth)

lemma wf_load: "wf_notebook (fst (load d)) (snd (load d))"
  by (simp add: wf_notebook_def load_def addrs_from_upt list_all_iff)

lemma no_manifest_find:
  assumes "\<forall>c\<in>set (doc_cells (snapshot nb h)). \<not> (cell_type c = ''code'' \<and> p (source c))"
  shows "find_item (\<lambda>a. is_manifest p (h ! a)) (cells nb) = None"
  using assms by (auto simp: find_item_None is_manifest_iff snapshot_def)

lemma map_nth_append_old:
  "list_all (\<lambda>a. a < length h) as \<Longrightarrow> map (\<lambda>a. (h @ ys) ! a) as = map (\<lambda>a. h ! a) as"
  by (induction as) (auto simp: nth_append)

lemma map_nth_update_other:
  "a \<notin> set as \<Longrightarrow> map (\<lambda>b. (h[a := c]) ! b) as = map (\<lambda>b. h ! b) as"
  by (induction as) auto

section \<open>The manifest cell is located or created\<close>

lemma locate_or_create_inserts:
  assumes wf: "wf_notebook nb h"
      and none: "\<forall>c\<in>set (doc_cells (snapshot nb h)). \<not> (cell_type c = ''code'' \<and> p (source c))"
  shows "\<exists>a nb' h'.
           locate_or_create p nb h = (a, nb', h')
         \<and> snapshot nb' h' = (snapshot nb h)\<lparr>doc_cells := code_cell [] True # doc_cells (snapshot nb h)\<rparr>
         \<and> cells nb' ! 0 = a \<and> a \<notin> set (cells nb) \<and> h' ! a = code_cell [] True
         \<and> wf_notebook nb' h'
         \<and> (\<forall>v. snapshot nb' (set_source a v h')
                 = (snapshot nb h)\<lparr>doc_cells := code_cell v True # doc_cells (snapshot nb h)\<rparr>)
         \<and> (\<forall>v. p v \<longrightarrow> locate_or_create p nb' (set_source a v h') = (a, nb', set_source a v h'))
         \<and> (p [] \<longrightarrow> locate_or_create p nb' h' = (a, nb', h'))
         \<and> (\<not> p [] \<longrightarrow> length (cells (fst (snd (locate_or_create p nb' h')))) = length (cells nb) + 2)"
proof -
  define a where "a = length h"
  define h' where "h' = h @ [code_cell [] True]"
  define nb' where "nb' = nb\<lparr>cells := a # cells nb\<rparr>"
  have inr: "list_all (\<lambda>b. b < length h) (cells nb)" and dist: "distinct (cells nb)"
    using wf by (auto simp: wf_notebook_def)
  have fresh: "a \<notin> set (cells nb)"
    using inr by (auto simp: a_def list_all_iff)
  have loc: "locate_or_create p nb h = (a, nb', h')"
    using no_manifest_find[OF none] by (simp add: locate_or_create_def a_def h'_def nb'_def)
  have new: "h' ! a = code_cell [] True"
    by (simp add: h'_def a_def)
  have old: "map (\<lambda>b. h' ! b) (cells nb) = map (\<lambda>b. h ! b) (cells nb)"
    unfolding h'_def by (rule map_nth_append_old[OF inr])
  have snap: "snapshot nb' h' = (snapshot nb h)\<lparr>doc_cells := code_cell [] True # doc_cells (snapshot nb h)\<rparr>"
    using new old by (simp add: snapshot_def nb'_def)
  have wf': "wf_notebook nb' h'"
    using inr dist fresh by (auto simp: wf_notebook_def nb'_def h'_def a_def list_all_iff)
  have alen: "a < length h'"
    by (simp add: a_def h'_def)
  have upd: "snapshot nb' (set_source a v h')
      = (snapshot nb h)\<lparr>doc_cells := code_cell v True # doc_cells (snapshot nb h)\<rparr>" for v
  proof -
    have "map (\<lambda>b. (set_source a v h') ! b) (cells nb) = map (\<lambda>b. h ! b) (cells nb)"
      unfolding set_source_def by (simp only: map_nth_update_other[OF fresh] old)
    moreover have "set_source a v h' ! a = code_cell v True"
      using alen new by (simp add: set_source_def code_cell_def)
    ultimately show ?thesis
      by (simp add: snapshot_def nb'_def)
  qed
  have again: "locate_or_create p nb' (set_source a v h') = (a, nb', set_source a v h')"
    if "p v" for v
  proof -
    have "set_source a v h' ! a = code_cell v True"
      using alen new by (simp add: set_source_def code_cell_def)
    then have "is_manifest p (set_source a v h' ! a)"
      using that by (simp add: is_manifest_iff code_cell_def)
    then show ?thesis
      by (simp add: locate_or_create_def nb'_def)
  qed
  have same: "locate_or_create p nb' h' = (a, nb', h')" if "p []"
    using that new by (simp add: locate_or_create_def nb'_def is_manifest_iff code_cell_def)
  have twice: "length (cells (fst (snd (locate_or_create p nb' h')))) = length (cells nb) + 2"
    if "\<not> p []"
  proof -
    have "\<not> is_manifest p (h' ! a)"
      using that new by (simp add: is_manifest_iff code_cell_def)
    moreover have "find_item (\<lambda>b. is_manifest p (h' ! b)) (cells nb) = None"
      using no_manifest_find[OF none] inr
      by (auto simp: find_item_None h'_def nth_append list_all_iff)
    ultimately show ?thesis
      by (simp add: locate_or_create_def nb'_def)
  qed
  show ?thesis
    using loc snap fresh new wf' upd again same twice by (simp add: nb'_def)
qed

text \<open>
  C1, as amended. Let a Document hold no code cell whose source satisfies the
  inline-metadata test \<open>p\<close>. Then locating or creating the manifest cell inserts
  exactly one new cell, a hidden code cell with empty source, at index 0; the cells
  that were there follow unchanged and in order. The reference returned is that of the
  inserted cell, a new object, and an assignment to its source through the reference
  shows in the notebook. A repeated call on the same notebook inserts nothing more
  once the inserted cell's source satisfies \<open>p\<close> (as it does after \<open>add\<close> has put
  a manifest there); while that source is still empty, a repeated call inserts nothing
  if \<open>p\<close> accepts the empty text and inserts a second cell if it does not.
\<close>

theorem locate_or_create_fresh:
  assumes none: "\<forall>c\<in>set (doc_cells d). \<not> (cell_type c = ''code'' \<and> p (source c))"
  shows "\<exists>a nb' h'.
           locate_or_create p (fst (load d)) (snd (load d)) = (a, nb', h')
         \<and> snapshot nb' h' = d\<lparr>doc_cells := code_cell [] True # doc_cells d\<rparr>
         \<and> cells nb' ! 0 = a \<and> a \<notin> set (cells (fst (load d))) \<and> h' ! a = code_cell [] True
         \<and> (\<forall>v. snapshot nb' (set_source a v h') = d\<lparr>doc_cells := code_cell v True # doc_cells d\<rparr>)
         \<and> (\<forall>v. p v \<longrightarrow> locate_or_create p nb' (set_source a v h') = (a, nb', set_source a v h'))
         \<and> (p [] \<longrightarrow> locate_or_create p nb' h' = (a, nb', h'))
         \<and> (\<not> p [] \<longrightarrow>
               length (cells (fst (snd (locate_or_create p nb' h')))) = length (doc_cells d) + 2)"
proof -
  have none': "\<forall>c\<in>set (doc_cells (snapshot (fst (load d)) (snd (load d)))).
      \<not> (cell_type c = ''code'' \<and> p (source c))"
    using none by (simp only: snapshot_load)
  have len: "length (cells (fst (load d))) = length (doc_cells d)"
    by (simp add: load_def addrs_from_upt)
  show ?thesis
    using locate_or_create_inserts [OF wf_load none']
    by (simp only: snapshot_load len) blast
qed

theorem locate_or_create_fresh_witness:
  "snapshot
     (fst (snd (locate_or_create includes_inline_metadata
        (fst (load \<lparr>doc_cells = [\<lparr>cell_type = ''markdown'', source = ''# Title'', metadata = [],
                                   hidden = False\<rparr>], doc_metadata = []\<rparr>))
        (snd (load \<lparr>doc_cells = [\<lparr>cell_type = ''markdown'', source = ''# Title'', metadata = [],
                                   hidden = False\<rparr>], doc_metadata = []\<rparr>)))))
     (snd (snd (locate_or_create includes_inline_metadata
        (fst (load \<lparr>doc_cells = [\<lparr>cell_type = ''markdown'', source = ''# Title'', metadata = [],
                                   hidden = False\<rparr>], doc_metadata = []\<rparr>))
        (snd (load \<lparr>doc_cells = [\<lparr>cell_type = ''markdown'', source = ''# Title'', metadata = [],
                                   hidden = False\<rparr>], doc_metadata = []\<rparr>)))))
   = \<lparr>doc_cells = [code_cell [] True,
        \<lparr>cell_type = ''markdown'', source = ''# Title'', metadata = [], hidden = False\<rparr>],
      doc_metadata = []\<rparr>"
proof -
  let ?d = "\<lparr>doc_cells = [\<lparr>cell_type = ''markdown'', source = ''# Title'', metadata = [],
                             hidden = False\<rparr>], doc_metadata = []\<rparr>"
  have none: "\<forall>c\<in>set (doc_cells ?d).
      \<not> (cell_type c = ''code'' \<and> includes_inline_metadata (source c))"
    by simp
  from locate_or_create_fresh [OF none] obtain a nb' h'
    where "locate_or_create includes_inline_metadata (fst (load ?d)) (snd (load ?d)) = (a, nb', h')"
      and "snapshot nb' h' = ?d\<lparr>doc_cells := code_cell [] True # doc_cells ?d\<rparr>"
    by blast
  then show ?thesis
    by simp
qed

text \<open>
  C1 as stated fails on repeated calls. The notebook read from a Document with one
  markdown cell has no manifest cell. The first call inserts a hidden empty cell at
  index 0; a second call on the same notebook finds no manifest cell either, the empty
  text holding no inline metadata, and inserts another one.
\<close>

theorem locate_or_create_twice_counterexample:
  "locate_or_create includes_inline_metadata
      (fst (load \<lparr>doc_cells = [\<lparr>cell_type = ''markdown'', source = ''# Title'', metadata = [],
                                 hidden = False\<rparr>], doc_metadata = []\<rparr>))
      (snd (load \<lparr>doc_cells = [\<lparr>cell_type = ''markdown'', source = ''# Title'', metadata = [],
                                 hidden = False\<rparr>], doc_metadata = []\<rparr>))
    = (1, \<lparr>cells = [1, 0], nb_metadata = []\<rparr>,
       [\<lparr>cell_type = ''markdown'', source = ''# Title'', metadata = [], hidden = False\<rparr>,
        code_cell [] True])
   \<and> locate_or_create includes_inline_metadata \<lparr>cells = [1, 0], nb_metadata = []\<rparr>
       [\<lparr>cell_type = ''markdown'', source = ''# Title'', metadata = [], hidden = False\<rparr>,
        code_cell [] True]
    = (2, \<lparr>cells = [2, 1, 0], nb_metadata = []\<rparr>,
       [\<lparr>cell_type = ''markdown'', source = ''# Title'', metadata = [], hidden = False\<rparr>,
        code_cell [] True, code_cell [] True])"
  by (simp add: locate_or_create_def load_def is_manifest_def code_cell_def chars_of_def
      includes_inline_metadata_def)

section \<open>Facts about \<open>uv_pip_compile\<close>\<close>

lemma str_contains_sublist: "str_contains n h \<longleftrightarrow> sublist n h"
  by (induction h) (auto simp: sublist_Cons_right)

lemma split_on_nonempty: "split_on sep s \<noteq> []"
  by (induction s) (auto split: list.splits)

lemma split_on_join: "py_join [sep] (split_on sep s) = s"
proof (induction s)
  case Nil
  show ?case by simp
next
  case (Cons c cs)
  obtain l ls where e: "split_on sep cs = l # ls"
    using split_on_nonempty [of sep cs] by (cases "split_on sep cs") auto
  show ?case
    using Cons e by (cases ls) auto
qed

lemma split_on_no_sep: "l \<in> set (split_on sep s) \<Longrightarrow> sep \<notin> set l"
  by (induction s arbitrary: l) (auto split: if_splits list.splits)

lemma append_packages_fold:
  "append_packages pkgs acc
     = foldl (\<lambda>acc p. if sublist p acc then acc else acc @ p @ [newline]) acc pkgs"
  by (induction pkgs arbitrary: acc) (simp_all add: str_contains_sublist)

lemma append_packages_terminated:
  "acc = [] \<or> last acc = newline \<Longrightarrow> append_packages pkgs acc = spec_combined_text acc pkgs"
proof (induction pkgs arbitrary: acc)
  case Nil
  then show ?case
    by (simp add: spec_combined_text_def)
next
  case (Cons p pkgs)
  have step: "spec_combined_text acc (p # pkgs)
      = spec_combined_text (if sublist p acc then acc else acc @ p @ [newline]) pkgs"
    using Cons.prems by (auto simp: spec_combined_text_def own_line_def)
  have "append_packages (p # pkgs) acc
      = append_packages pkgs (if sublist p acc then acc else acc @ p @ [newline])"
    by (simp add: str_contains_sublist)
  also have "\<dots> = spec_combined_text (if sublist p acc then acc else acc @ p @ [newline]) pkgs"
    using Cons.prems by (intro Cons.IH) auto
  finally show ?case
    using step by simp
qed

lemma append_packages_spec: "append_packages pkgs [] = spec_combined_text [] pkgs"
  by (rule append_packages_terminated) simp

lemma existing_text_cases:
  assumes "reqs = None \<and> existing = [] \<or> reqs = Some r \<and> read_text r w = Inr existing"
  shows "(case reqs of None \<Rightarrow> Inr [] | Some r \<Rightarrow> read_text r w) = Inr existing"
  using assms by auto

lemma uv_pip_compile_run:
  assumes ex: "reqs = None \<and> existing = [] \<or> reqs = Some r \<and> read_text r w = Inr existing"
      and run: "run E (pip_compile_args E nd en) (append_packages pkgs existing) (files w)
                  = (result, f')"
  shows "uv_pip_compile E pkgs reqs nd en w =
           (if returncode result \<noteq> 0
            then (case decode (stderr result) of
                    Inl e \<Rightarrow> Inl e
                  | Inr msg \<Rightarrow> Inl (RuntimeError msg))
            else (case decode (stdout result) of
                    Inl e \<Rightarrow> Inl e
                  | Inr out \<Rightarrow> Inr (filter (str_contains ''=='') (split_on newline out))),
            w\<lparr>files := f',
              calls := calls w @ [(pip_compile_args E nd en,
                                   append_packages pkgs existing)]\<rparr>)"
  using run
  by (simp add: uv_pip_compile_def existing_text_cases [OF ex] subprocess_run_def
           split: sum.splits)


lemma ascii_valid_bytes: "list_all (\<lambda>b. b < 128) bs \<Longrightarrow> valid_utf8_bytes bs"
  by (induction bs) simp_all

lemma ascii_valid: "list_all (\<lambda>c. (of_char c :: nat) < 128) s \<Longrightarrow> valid_utf8 s"
  by (simp add: valid_utf8_def ascii_valid_bytes list_all_iff)

lemma decode_ascii: "list_all (\<lambda>c. (of_char c :: nat) < 128) s \<Longrightarrow> decode s = Inr s"
  by (simp add: decode_def ascii_valid)

lemma sublist_eval:
  "sublist xs [] \<longleftrightarrow> xs = []"
  "sublist xs (y # ys) \<longleftrightarrow> prefix xs (y # ys) \<or> sublist xs ys"
  by (auto simp: sublist_Cons_right)

section \<open>The text piped to the compile step\<close>

text \<open>
  C5, at an input where the code departs from it. The requirements file holds
  \<open>requests>=2\<close>, a newline and \<open>numpy\<close>, with no newline at its end; the package
  \<open>pandas\<close> is requested and occurs nowhere in that text. The combined text of the
  claim has \<open>pandas\<close> as a line of its own after the line \<open>numpy\<close>. The loop of lines
  48 to 50 appends \<open>pandas\<close> and a newline directly to the text: the standard input
  of the compile step ends in the line \<open>numpypandas\<close>, and \<open>pandas\<close> is not a line of
  it.
\<close>

theorem uv_pip_compile_joins_lines:
  "calls (snd (uv_pip_compile example_env [''pandas''] (Some ''requirements.txt'') True None
                 unterminated_world))
     = [([''uv'', ''pip'', ''compile'', ''--no-deps'', ''-''],
         ''requests>=2'' @ [newline] @ ''numpypandas'' @ [newline])]
   \<and> split_on newline (''requests>=2'' @ [newline] @ ''numpypandas'' @ [newline])
       = [''requests>=2'', ''numpypandas'', []]
   \<and> spec_combined_text (''requests>=2'' @ [newline] @ ''numpy'') [''pandas'']
       = ''requests>=2'' @ [newline] @ ''numpy'' @ [newline] @ ''pandas'' @ [newline]
   \<and> read_text ''requirements.txt'' unterminated_world
       = Inr (''requests>=2'' @ [newline] @ ''numpy'')
   \<and> str_contains ''pandas'' (''requests>=2'' @ [newline] @ ''numpy'') = False"
proof -
  have rd: "read_text ''requirements.txt'' unterminated_world
      = Inr (''requests>=2'' @ [newline] @ ''numpy'')"
    by (simp add: read_text_def unterminated_world_def decode_ascii newline_def)
  have ex: "Some ''requirements.txt'' = None \<and> ''requests>=2'' @ [newline] @ ''numpy'' = []
      \<or> Some ''requirements.txt'' = Some ''requirements.txt''
        \<and> read_text ''requirements.txt'' unterminated_world
            = Inr (''requests>=2'' @ [newline] @ ''numpy'')"
    using rd by simp
  have absent: "str_contains ''pandas'' (''requests>=2'' @ [newline] @ ''numpy'') = False"
    by (simp add: newline_def)
  have inp: "append_packages [''pandas''] (''requests>=2'' @ [newline] @ ''numpy'')
      = ''requests>=2'' @ [newline] @ ''numpypandas'' @ [newline]"
    using absent by simp
  have args: "pip_compile_args example_env True None = [''uv'', ''pip'', ''compile'', ''--no-deps'', ''-'']"
    by (simp add: pip_compile_args_def when_set_def example_env_def)
  obtain result f' where run:
    "run example_env (pip_compile_args example_env True None)
       (append_packages [''pandas''] (''requests>=2'' @ [newline] @ ''numpy''))
       (files unterminated_world) = (result, f')"
    by (cases "run example_env (pip_compile_args example_env True None)
       (append_packages [''pandas''] (''requests>=2'' @ [newline] @ ''numpy''))
       (files unterminated_world)")
  have log: "calls (snd (uv_pip_compile example_env [''pandas''] (Some ''requirements.txt'') True None
                 unterminated_world))
     = [([''uv'', ''pip'', ''compile'', ''--no-deps'', ''-''],
         ''requests>=2'' @ [newline] @ ''numpypandas'' @ [newline])]"
    unfolding uv_pip_compile_run [OF ex run] inp args
    by (simp add: unterminated_world_def)
  have lines: "split_on newline (''requests>=2'' @ [newline] @ ''numpypandas'' @ [newline])
       = [''requests>=2'', ''numpypandas'', []]"
    by (simp add: newline_def)
  have spec: "spec_combined_text (''requests>=2'' @ [newline] @ ''numpy'') [''pandas'']
       = ''requests>=2'' @ [newline] @ ''numpy'' @ [newline] @ ''pandas'' @ [newline]"
    by (simp add: spec_combined_text_def own_line_def sublist_eval newline_def)
  show ?thesis
    using log lines spec rd absent by (simp only: simp_thms)
qed

section \<open>The pins read from the compile step\<close>

text \<open>
  C6. When the tool exits with code 0 and its standard output is a text (the bytes
  captured are UTF-8, so that \<open>decode()\<close> gives them as a \<open>str\<close>), \<open>uv_pip_compile\<close>
  returns exactly the lines of that text that contain \<open>==\<close>, in the order of the
  output, and drops every other line. The lines are those of \<open>split("\n")\<close>: joined by
  newlines they give the output back, and none holds a newline.
\<close>

theorem uv_pip_compile_output:
  assumes ex: "reqs = None \<and> existing = [] \<or> reqs = Some r \<and> read_text r w = Inr existing"
      and run: "run E (pip_compile_args E nd en) (append_packages pkgs existing) (files w)
                  = (result, f')"
      and ok: "returncode result = 0"
      and utf8: "valid_utf8 (stdout result)"
  shows "fst (uv_pip_compile E pkgs reqs nd en w)
           = Inr (filter (sublist ''=='') (split_on newline (stdout result)))
       \<and> py_join [newline] (split_on newline (stdout result)) = stdout result
       \<and> (\<forall>l\<in>set (split_on newline (stdout result)). newline \<notin> set l)"
proof -
  have "filter (str_contains ''=='') ls = filter (sublist ''=='') ls" for ls
    by (rule filter_cong) (simp_all add: str_contains_sublist)
  then show ?thesis
    using uv_pip_compile_run [OF ex run] ok utf8 split_on_join split_on_no_sep
    by (auto simp: decode_def)
qed

theorem uv_pip_compile_output_witness:
  "fst (uv_pip_compile example_env [''requests''] None True None empty_world)
     = Inr [''requests==2.31.0'']"
proof -
  have ex: "(None :: string option) = None \<and> ([] :: string) = []
      \<or> None = Some [] \<and> read_text [] empty_world = Inr []"
    by simp
  have run: "run example_env (pip_compile_args example_env True None)
      (append_packages [''requests''] []) (files empty_world)
      = (\<lparr>returncode = 0,
          stdout = ''# pinned by uv'' @ [newline] @ ''requests==2.31.0'' @ [newline],
          stderr = []\<rparr>, files empty_world)"
    by (simp add: example_env_def example_run_def pip_compile_args_def when_set_def)
  have utf8: "valid_utf8 (stdout \<lparr>returncode = 0,
          stdout = ''# pinned by uv'' @ [newline] @ ''requests==2.31.0'' @ [newline],
          stderr = []\<rparr>)"
    by (simp add: ascii_valid newline_def)
  show ?thesis
    using uv_pip_compile_output [OF ex run _ utf8]
    by (simp add: sublist_eval newline_def)
qed

section \<open>When the compile step raises\<close>





section \<open>Facts about the subprocess log\<close>

lemma when_set_supplied: "when_set x f = spec_flag (supplied x) f"
  by (simp add: when_set_def spec_flag_def supplied_def split: option.splits)

lemma uv_calls: "calls (snd (uv E args check w)) = calls w @ [(find_uv_bin E # args, [])]"
  by (simp add: uv_def subprocess_run_def split: prod.splits)

lemma uv_files: "files (snd (uv E args check w)) = snd (run E (find_uv_bin E # args) [] (files w))"
  by (simp add: uv_def subprocess_run_def split: prod.splits)

lemma uv_script_calls:
  "calls (snd (uv_script E script k w)) = calls w @ [(find_uv_bin E # uv_script_args script k, [])]"
  using uv_calls [of E "uv_script_args script k" True w]
  by (auto simp: uv_script_def split: prod.splits sum.splits)

lemma uv_script_files:
  "files (snd (uv_script E script k w)) = snd (run E (find_uv_bin E # uv_script_args script k) [] (files w))"
  using uv_files [of E "uv_script_args script k" True w]
  by (auto simp: uv_script_def split: prod.splits sum.splits)

lemma write_ipynb_calls: "calls (snd (write_ipynb E d p w)) = calls w"
  by (simp add: write_ipynb_def)

lemma unlink_calls: "calls (unlink f w) = calls w"
  by (simp add: unlink_def)

lemma close_tempfile_calls: "calls (snd (close_tempfile E f w)) = calls w"
  by (simp add: close_tempfile_def unlink_def)

lemma leave_with_calls: "calls (snd (leave_with E f rw)) = calls (snd rw)"
  using close_tempfile_calls [of E f "snd rw"]
  by (cases "close_tempfile E f (snd rw)") (auto simp: leave_with_def split: option.splits)

lemma add_notebook_unreadable:
  "read_notebook E path w = Inl e \<Longrightarrow> add_notebook E path k w = (Inl e, w)"
  by (simp add: add_notebook_def)

lemma add_notebook_calls:
  assumes "read_notebook E path w = Inr d"
  shows "calls (snd (add_notebook E path k w))
           = calls w @ [(find_uv_bin E # uv_script_args (mktemp E (files w) (parent path) ''.py'') k, [])]"
proof -
  let ?f = "mktemp E (files w) (parent path) ''.py''"
  obtain nb h where ld: "load d = (nb, h)"
    by (cases "load d") auto
  obtain cell nb1 h1 where loc: "locate_or_create (inline_metadata E) nb h = (cell, nb1, h1)"
    by (cases "locate_or_create (inline_metadata E) nb h") auto
  let ?w1 = "w\<lparr>files := (files w)(?f \<mapsto> strip (source (h1 ! cell)))\<rparr>"
  let ?body = "case uv_script E ?f k ?w1 of
                        (Inl e, w2) \<Rightarrow> (Inl e, w2)
                      | (Inr u, w2) \<Rightarrow>
                          (case decode (held E (find_uv_bin E # uv_script_args ?f k) []
                                          (files ?w1) ?f) of
                             Inl e \<Rightarrow> (Inl e, w2)
                           | Inr s \<Rightarrow>
                               (Inr (set_source cell (strip (universal_newlines s)) h1), w2))"
  have sb: "snd ?body = snd (uv_script E ?f k ?w1)"
    by (auto split: prod.splits sum.splits)
  obtain r3 w3 where lv: "leave_with E ?f ?body = (r3, w3)"
    by (cases "leave_with E ?f ?body") auto
  have c3: "calls w3 = calls w @ [(find_uv_bin E # uv_script_args ?f k, [])]"
    using leave_with_calls [of E ?f ?body] lv sb uv_script_calls [of E ?f k ?w1] by simp
  have "add_notebook E path k w =
      (case (r3, w3) of
         (Inl e, w3) \<Rightarrow> (Inl e, w3)
       | (Inr h2, w3) \<Rightarrow>
           (case with_suffix path ''.ipynb'' of
              Inl e \<Rightarrow> (Inl e, w3)
            | Inr out \<Rightarrow> write_ipynb E (snapshot nb1 h2) out w3))"
    using assms ld loc lv by (simp add: add_notebook_def Let_def)
  then show ?thesis
    using c3 by (simp add: write_ipynb_def split: sum.splits)
qed

lemma add_unpinned:
  "add E path k False w =
     (if suffix_of path = ''.ipynb'' then add_notebook E path k w else uv_script E path k w)"
  by (simp add: add_def)

lemma add_pinned:
  assumes "uv_pip_compile E (packages k) (requirements k) True (exclude_newer k) w = (Inr pinned, w1)"
  shows "add E path k True w = add E path (k\<lparr>packages := pinned, requirements := None\<rparr>) False w1"
  using assms by (simp add: add_def)

lemma add_pin_failed:
  assumes "uv_pip_compile E (packages k) (requirements k) True (exclude_newer k) w = (Inl e, w1)"
  shows "add E path k True w = (Inl e, w1)"
  using assms by (simp add: add_def)

lemma add_unpinned_calls: "\<exists>rest. calls (snd (add E path k False w)) = calls w @ rest"
proof (cases "suffix_of path = ''.ipynb''")
  case True
  show ?thesis
  proof (cases "read_notebook E path w")
    case (Inl e)
    then show ?thesis
      using True by (simp add: add_unpinned add_notebook_unreadable)
  next
    case (Inr d)
    then show ?thesis
      using True by (simp add: add_unpinned add_notebook_calls)
  qed
next
  case False
  then show ?thesis
    by (simp add: add_unpinned uv_script_calls)
qed

section \<open>The argument vector of add-to-script\<close>

text \<open>
  C8. For every combination of parameters the argument vector that \<open>uv_script\<close> passes
  to the package manager is the one of the spec's template: \<open>add\<close>, then the flag of
  each supplied optional parameter in the template's order (\<open>--requirements\<close> with its
  file, one \<open>--extra=\<close> per extra, \<open>--editable\<close>, \<open>--tag=\<close>, \<open>--branch=\<close>, \<open>--rev=\<close>,
  \<open>--exclude-newer=\<close>), then \<open>--script\<close> with the script path, then the packages. An
  omitted parameter contributes no argument. Omitted is read as Python's truth test
  has it: \<open>None\<close>, and also the empty string, so that no flag with an empty value is
  produced. That vector, after the binary's path, is what the one subprocess is run on.
\<close>

theorem uv_script_template:
  "uv_script_args script k =
     spec_add_template (supplied (requirements k)) (case extras k of None \<Rightarrow> [] | Some es \<Rightarrow> es)
       (editable k) (supplied (tag k)) (supplied (branch k)) (supplied (rev' k))
       (supplied (exclude_newer k)) script (packages k)
   \<and> calls (snd (uv_script E script k w)) = calls w @ [(find_uv_bin E # uv_script_args script k, [])]"
  by (simp add: uv_script_args_def spec_add_template_def when_set_supplied uv_script_calls)

theorem uv_script_template_witness:
  "uv_script_args ''s.py''
     \<lparr>packages = [''requests'', ''numpy''], requirements = Some ''req.txt'',
      extras = Some [''dev'', ''test''], editable = True, branch = Some ''main'',
      rev' = Some ''abc123'', tag = Some ''v1.0'', exclude_newer = Some ''2024-01-01''\<rparr>
     = [''add'', ''--requirements'', ''req.txt'', ''--extra=dev'', ''--extra=test'', ''--editable'',
        ''--tag=v1.0'', ''--branch=main'', ''--rev=abc123'', ''--exclude-newer=2024-01-01'',
        ''--script'', ''s.py'', ''requests'', ''numpy'']
   \<and> uv_script_args ''s.py'' (default_kwargs [''requests''])
     = [''add'', ''--script'', ''s.py'', ''requests'']"
  using uv_script_template [of "''s.py''"
      "\<lparr>packages = [''requests'', ''numpy''], requirements = Some ''req.txt'',
        extras = Some [''dev'', ''test''], editable = True, branch = Some ''main'',
        rev' = Some ''abc123'', tag = Some ''v1.0'', exclude_newer = Some ''2024-01-01''\<rparr>"
      example_env empty_world]
    uv_script_template [of "''s.py''" "default_kwargs [''requests'']" example_env empty_world]
  by (simp add: spec_add_template_def spec_flag_def supplied_def default_kwargs_def)

section \<open>Pinning before add-to-script\<close>

text \<open>
  C3. Let the compile step of a pin-enabled \<open>add\<close> return the list \<open>pinned\<close> for the
  original packages and requirements. Then \<open>add\<close> goes on as the unpinned \<open>add\<close> does
  with \<open>pinned\<close> for the packages and no requirements: the add-to-script invocation,
  on the path itself or on the notebook's temporary script, is run on the argument
  vector of the template with no \<open>--requirements\<close> and with \<open>pinned\<close> as its packages.
  With no requirements file the compile step got the packages' combined text on its
  standard input; for the packages \<open>["requests"]\<close> that is the line \<open>requests\<close> and a
  newline, as the example of the claim has it.
\<close>

theorem add_pin_passes_pins:
  assumes pin: "uv_pip_compile E (packages k) (requirements k) True (exclude_newer k) w = (Inr pinned, w1)"
  shows "add E path k True w = add E path (k\<lparr>packages := pinned, requirements := None\<rparr>) False w1
       \<and> (suffix_of path \<noteq> ''.ipynb'' \<longrightarrow>
            calls (snd (add E path k True w))
              = calls w1 @ [(find_uv_bin E
                   # uv_script_args path (k\<lparr>packages := pinned, requirements := None\<rparr>), [])])
       \<and> (\<forall>d. suffix_of path = ''.ipynb'' \<and> read_notebook E path w1 = Inr d \<longrightarrow>
            calls (snd (add E path k True w))
              = calls w1 @ [(find_uv_bin E
                   # uv_script_args (mktemp E (files w1) (parent path) ''.py'')
                       (k\<lparr>packages := pinned, requirements := None\<rparr>), [])])
       \<and> (\<forall>script. uv_script_args script (k\<lparr>packages := pinned, requirements := None\<rparr>)
            = spec_add_template None (case extras k of None \<Rightarrow> [] | Some es \<Rightarrow> es) (editable k)
                (supplied (tag k)) (supplied (branch k)) (supplied (rev' k))
                (supplied (exclude_newer k)) script pinned)
       \<and> (requirements k = None \<longrightarrow>
            calls w1 = calls w @ [(pip_compile_args E True (exclude_newer k),
                                   spec_combined_text [] (packages k))])"
proof (intro conjI allI impI)
  show "add E path k True w = add E path (k\<lparr>packages := pinned, requirements := None\<rparr>) False w1"
    by (rule add_pinned [OF pin])
  show "calls (snd (add E path k True w))
      = calls w1 @ [(find_uv_bin E
           # uv_script_args path (k\<lparr>packages := pinned, requirements := None\<rparr>), [])]"
    if "suffix_of path \<noteq> ''.ipynb''"
    using that by (simp add: add_pinned [OF pin] add_unpinned uv_script_calls)
  show "calls (snd (add E path k True w))
      = calls w1 @ [(find_uv_bin E
           # uv_script_args (mktemp E (files w1) (parent path) ''.py'')
               (k\<lparr>packages := pinned, requirements := None\<rparr>), [])]"
    if "suffix_of path = ''.ipynb'' \<and> read_notebook E path w1 = Inr d" for d
    using that by (simp add: add_pinned [OF pin] add_unpinned add_notebook_calls)
  show "uv_script_args script (k\<lparr>packages := pinned, requirements := None\<rparr>)
      = spec_add_template None (case extras k of None \<Rightarrow> [] | Some es \<Rightarrow> es) (editable k)
          (supplied (tag k)) (supplied (branch k)) (supplied (rev' k))
          (supplied (exclude_newer k)) script pinned" for script
    by (simp add: uv_script_args_def spec_add_template_def when_set_supplied)
       (simp add: supplied_def spec_flag_def)
  show "calls w1 = calls w @ [(pip_compile_args E True (exclude_newer k),
                               spec_combined_text [] (packages k))]"
    if none: "requirements k = None"
  proof -
    obtain result f' where run:
      "run E (pip_compile_args E True (exclude_newer k)) (append_packages (packages k) []) (files w)
         = (result, f')"
      by (cases "run E (pip_compile_args E True (exclude_newer k)) (append_packages (packages k) []) (files w)")
    have ex: "requirements k = None \<and> ([] :: string) = [] \<or> requirements k = Some [] \<and> read_text [] w = Inr []"
      using none by simp
    from uv_pip_compile_run [OF ex run] pin show ?thesis
      by (simp add: append_packages_spec prod_eq_iff [where s = "(Inr pinned, w1)"])
  qed
qed

theorem add_pin_passes_pins_witness:
  "calls (snd (add example_env ''nb.ipynb'' (default_kwargs [''requests'']) True example_world))
     = [([''uv'', ''pip'', ''compile'', ''--no-deps'', ''-''], ''requests'' @ [newline]),
        ([''uv'', ''add'', ''--script'', ''tmpjuv.py'', ''requests==2.31.0''], [])]"
proof -
  let ?w1 = "example_world\<lparr>files := files example_world,
     calls := [([''uv'', ''pip'', ''compile'', ''--no-deps'', ''-''], ''requests'' @ [newline])]\<rparr>"
  have pin: "uv_pip_compile example_env (packages (default_kwargs [''requests'']))
      (requirements (default_kwargs [''requests''])) True
      (exclude_newer (default_kwargs [''requests''])) example_world
      = (Inr [''requests==2.31.0''], ?w1)"
    by (simp add: uv_pip_compile_def default_kwargs_def subprocess_run_def example_env_def
        example_run_def pip_compile_args_def when_set_def example_world_def newline_def
        decode_ascii)
  have rd: "suffix_of ''nb.ipynb'' = ''.ipynb'' \<and> read_notebook example_env ''nb.ipynb'' ?w1 = Inr example_doc"
    by (simp add: suffix_of_def path_name_def rfind_def read_notebook_def example_world_def
        example_env_def example_reads_def splitext_ext_def)
  have tmp: "mktemp example_env fs (parent ''nb.ipynb'') ''.py'' = ''tmpjuv.py''" for fs
    by (simp add: example_env_def parent_def path_name_def joinpath_def)
  have bin: "find_uv_bin example_env = ''uv''"
    by (simp add: example_env_def)
  from add_pin_passes_pins [OF pin, of "''nb.ipynb''"] rd
  have "calls (snd (add example_env ''nb.ipynb'' (default_kwargs [''requests'']) True example_world))
      = calls ?w1 @ [(find_uv_bin example_env
           # uv_script_args (mktemp example_env (files ?w1) (parent ''nb.ipynb'') ''.py'')
               ((default_kwargs [''requests''])\<lparr>packages := [''requests==2.31.0''],
                  requirements := None\<rparr>), [])]"
    by blast
  then show ?thesis
    by (simp add: tmp bin uv_script_args_def default_kwargs_def when_set_def)
qed

section \<open>The compile step runs without dependencies\<close>

text \<open>
  C10, as amended. Let the requirements file of a pin-enabled \<open>add\<close> be readable or
  absent. Then the first subprocess \<open>add\<close> runs is the compile command, on the
  combined requirements text, and its argument vector is \<open>pip compile --no-deps\<close>,
  the \<open>--exclude-newer=\<close> flag if supplied, and \<open>-\<close>: the flag \<open>--no-deps\<close> is always
  there. When the tool exits with code 0 and its output is a text (the captured bytes
  are UTF-8) the packages passed on are the lines of its output that contain \<open>==\<close>,
  whatever packages they name: the code does not compare them with the combined
  requirements text. When the output is not UTF-8, \<open>add\<close> ends there with the
  \<open>UnicodeDecodeError\<close> of \<open>decode()\<close>.
\<close>

theorem add_pin_no_deps:
  assumes ex: "requirements k = None \<and> existing = [] \<or> requirements k = Some r \<and> read_text r w = Inr existing"
      and run: "run E (pip_compile_args E True (exclude_newer k))
                  (append_packages (packages k) existing) (files w) = (result, f')"
  shows "(\<exists>rest. calls (snd (add E path k True w))
            = calls w @ (pip_compile_args E True (exclude_newer k),
                         append_packages (packages k) existing) # rest)
       \<and> pip_compile_args E True (exclude_newer k)
            = [find_uv_bin E, ''pip'', ''compile'', ''--no-deps'']
              @ spec_flag (supplied (exclude_newer k)) (\<lambda>d. [''--exclude-newer='' @ d]) @ [''-'']
       \<and> (returncode result = 0 \<and> valid_utf8 (stdout result) \<longrightarrow>
            add E path k True w
              = add E path
                  (k\<lparr>packages := filter (sublist ''=='') (split_on newline (stdout result)),
                     requirements := None\<rparr>)
                  False
                  (w\<lparr>files := f',
                     calls := calls w @ [(pip_compile_args E True (exclude_newer k),
                                          append_packages (packages k) existing)]\<rparr>))
       \<and> (returncode result = 0 \<and> \<not> valid_utf8 (stdout result) \<longrightarrow>
            add E path k True w
              = (Inl UnicodeDecodeError,
                 w\<lparr>files := f',
                   calls := calls w @ [(pip_compile_args E True (exclude_newer k),
                                        append_packages (packages k) existing)]\<rparr>))"
proof -
  let ?args = "pip_compile_args E True (exclude_newer k)"
  let ?inp = "append_packages (packages k) existing"
  let ?w1 = "w\<lparr>files := f', calls := calls w @ [(?args, ?inp)]\<rparr>"
  let ?pins = "filter (sublist ''=='') (split_on newline (stdout result))"
  have flt: "filter (str_contains ''=='') ls = filter (sublist ''=='') ls" for ls
    by (rule filter_cong) (simp_all add: str_contains_sublist)
  have comp: "uv_pip_compile E (packages k) (requirements k) True (exclude_newer k) w =
      (if returncode result \<noteq> 0
       then (if valid_utf8 (stderr result) then Inl (RuntimeError (stderr result))
             else Inl UnicodeDecodeError)
       else (if valid_utf8 (stdout result) then Inr ?pins else Inl UnicodeDecodeError), ?w1)"
    using uv_pip_compile_run [OF ex run] by (simp add: flt decode_def)
  have args: "?args = [find_uv_bin E, ''pip'', ''compile'', ''--no-deps'']
              @ spec_flag (supplied (exclude_newer k)) (\<lambda>d. [''--exclude-newer='' @ d]) @ [''-'']"
    by (simp add: pip_compile_args_def when_set_supplied)
  have pinned: "add E path k True w = add E path (k\<lparr>packages := ?pins, requirements := None\<rparr>) False ?w1"
    if "returncode result = 0 \<and> valid_utf8 (stdout result)"
    using comp that by (simp add: add_pinned)
  have undecoded: "add E path k True w = (Inl UnicodeDecodeError, ?w1)"
    if "returncode result = 0 \<and> \<not> valid_utf8 (stdout result)"
    using comp that by (simp add: add_pin_failed)
  have log: "\<exists>rest. calls (snd (add E path k True w)) = calls w @ (?args, ?inp) # rest"
  proof (cases "returncode result = 0 \<and> valid_utf8 (stdout result)")
    case True
    obtain rest where "calls (snd (add E path (k\<lparr>packages := ?pins, requirements := None\<rparr>) False ?w1))
        = calls ?w1 @ rest"
      using add_unpinned_calls by blast
    then show ?thesis
      using pinned [OF True] by simp
  next
    case False
    then have "\<exists>e. uv_pip_compile E (packages k) (requirements k) True (exclude_newer k) w
        = (Inl e, ?w1)"
      using comp by auto
    then obtain e where "add E path k True w = (Inl e, ?w1)"
      using add_pin_failed by blast
    then show ?thesis
      by simp
  qed
  show ?thesis
    using log args pinned undecoded by blast
qed



theorem add_pin_no_deps_witness:
  "calls (snd (add example_env ''script.py'' (default_kwargs [''requests'']) True including_world))
     = [([''uv'', ''pip'', ''compile'', ''--no-deps'', ''-''], ''requests'' @ [newline]),
        ([''uv'', ''add'', ''--script'', ''script.py'', ''requests==2.31.0''], [])]"
proof -
  let ?k = "default_kwargs [''requests'']"
  let ?out = "\<lparr>returncode = 0,
      stdout = ''# pinned by uv'' @ [newline] @ ''requests==2.31.0'' @ [newline], stderr = []\<rparr>"
  have ex: "requirements ?k = None \<and> ([] :: string) = []
      \<or> requirements ?k = Some [] \<and> read_text [] including_world = Inr []"
    by (simp add: default_kwargs_def)
  have run: "run example_env (pip_compile_args example_env True (exclude_newer ?k))
      (append_packages (packages ?k) []) (files including_world) = (?out, files including_world)"
    by (simp add: example_env_def example_run_def pip_compile_args_def when_set_def default_kwargs_def)
  have inp: "append_packages (packages ?k) [] = ''requests'' @ [newline]"
    by (simp add: default_kwargs_def)
  have args: "pip_compile_args example_env True (exclude_newer ?k)
      = [''uv'', ''pip'', ''compile'', ''--no-deps'', ''-'']"
    by (simp add: pip_compile_args_def when_set_def default_kwargs_def example_env_def)
  have pins: "filter (sublist ''=='') (split_on newline (stdout ?out)) = [''requests==2.31.0'']"
    by (simp add: sublist_eval newline_def)
  have sfx: "suffix_of ''script.py'' \<noteq> ''.ipynb''"
    by (simp add: suffix_of_def path_name_def rfind_def)
  have bin: "find_uv_bin example_env = ''uv''"
    by (simp add: example_env_def)
  have rc: "returncode ?out = 0 \<and> valid_utf8 (stdout ?out)"
    by (simp add: ascii_valid newline_def)
  have eq: "add example_env ''script.py'' ?k True including_world
      = add example_env ''script.py''
          (?k\<lparr>packages := [''requests==2.31.0''], requirements := None\<rparr>)
          False
          (including_world\<lparr>files := files including_world,
             calls := calls including_world
               @ [([''uv'', ''pip'', ''compile'', ''--no-deps'', ''-''], ''requests'' @ [newline])]\<rparr>)"
    using add_pin_no_deps [OF ex run, of "''script.py''", THEN conjunct2, THEN conjunct2, THEN conjunct1, THEN mp, OF rc]
    unfolding pins inp args .
  show ?thesis
    unfolding eq
    by (simp add: add_unpinned sfx uv_script_calls bin uv_script_args_def when_set_def
        default_kwargs_def including_world_def)
qed

text \<open>
  C10 as stated fails: the pins are not checked against the combined requirements text.
  Here the requirements file holds the include line \<open>-r base.txt\<close>, the tool gets
  \<open>--no-deps\<close> and pins what \<open>base.txt\<close> names as well; the list passed to
  add-to-script holds a pin for \<open>numpy\<close>, which the combined text does not name.
\<close>

theorem add_pin_unnamed_package_counterexample:
  "calls (snd (add including_env ''script.py''
       ((default_kwargs [''requests''])\<lparr>requirements := Some ''requirements.txt''\<rparr>) True
       including_world))
     = [([''uv'', ''pip'', ''compile'', ''--no-deps'', ''-''],
         ''-r base.txt'' @ [newline] @ ''requests'' @ [newline]),
        ([''uv'', ''add'', ''--script'', ''script.py'', ''numpy==1.26.4'', ''requests==2.31.0''], [])]
   \<and> \<not> sublist ''numpy'' (''-r base.txt'' @ [newline] @ ''requests'' @ [newline])"
proof -
  let ?k = "(default_kwargs [''requests''])\<lparr>requirements := Some ''requirements.txt''\<rparr>"
  let ?inp = "''-r base.txt'' @ [newline] @ ''requests'' @ [newline]"
  let ?args = "[''uv'', ''pip'', ''compile'', ''--no-deps'', ''-'']"
  let ?out = "\<lparr>returncode = 0,
      stdout = ''numpy==1.26.4'' @ [newline] @ ''requests==2.31.0'' @ [newline], stderr = []\<rparr>"
  let ?w1 = "including_world\<lparr>files := files including_world, calls := calls including_world @ [(?args, ?inp)]\<rparr>"
  have ex: "Some ''requirements.txt'' = None \<and> ''-r base.txt'' @ [newline] = []
      \<or> Some ''requirements.txt'' = Some ''requirements.txt''
        \<and> read_text ''requirements.txt'' including_world = Inr (''-r base.txt'' @ [newline])"
    by (simp add: including_world_def read_text_def decode_ascii newline_def)
  have args: "pip_compile_args including_env True None = ?args"
    by (simp add: pip_compile_args_def when_set_def including_env_def example_env_def)
  have inp: "append_packages [''requests''] (''-r base.txt'' @ [newline]) = ?inp"
    by (simp add: newline_def)
  have run: "run including_env (pip_compile_args including_env True None)
      (append_packages [''requests''] (''-r base.txt'' @ [newline])) (files including_world)
      = (?out, files including_world)"
    unfolding inp
    by (simp add: including_env_def example_env_def including_world_def sublist_eval newline_def)
  have comp: "uv_pip_compile including_env [''requests''] (Some ''requirements.txt'') True None
      including_world = (Inr [''numpy==1.26.4'', ''requests==2.31.0''], ?w1)"
    unfolding uv_pip_compile_run [OF ex run] args inp
    by (simp add: decode_ascii newline_def)
  have comp': "uv_pip_compile including_env (packages ?k) (requirements ?k) True (exclude_newer ?k)
      including_world = (Inr [''numpy==1.26.4'', ''requests==2.31.0''], ?w1)"
    using comp by (simp add: default_kwargs_def)
  have sfx: "suffix_of ''script.py'' \<noteq> ''.ipynb''"
    by (simp add: suffix_of_def path_name_def rfind_def)
  have bin: "find_uv_bin including_env = ''uv''"
    by (simp add: including_env_def example_env_def)
  have "calls (snd (add including_env ''script.py'' ?k True including_world))
      = [(?args, ?inp),
         ([''uv'', ''add'', ''--script'', ''script.py'', ''numpy==1.26.4'', ''requests==2.31.0''], [])]"
    unfolding add_pinned [OF comp']
    by (simp add: add_unpinned sfx uv_script_calls bin uv_script_args_def when_set_def
        default_kwargs_def including_world_def)
  moreover have "\<not> sublist ''numpy'' ?inp"
    by (simp add: sublist_eval newline_def)
  ultimately show ?thesis
    by blast
qed

section \<open>Facts about paths\<close>

lemma take_drop_While_length:
  "length (dropWhile P xs) = length xs - length (takeWhile P xs)"
proof -
  have "length (takeWhile P xs) + length (dropWhile P xs) = length (takeWhile P xs @ dropWhile P xs)"
    by (simp only: length_append)
  then have "length (takeWhile P xs) + length (dropWhile P xs) = length xs"
    by (simp only: takeWhile_dropWhile_id)
  then show ?thesis
    by arith
qed

lemma path_name_is_suffix: "p = take (length p - length (path_name p)) p @ path_name p"
proof (cases "p = ''.''")
  case True
  then show ?thesis by (simp add: path_name_def)
next
  case False
  let ?P = "\<lambda>c. c \<noteq> CHR ''/''"
  have n: "path_name p = rev (takeWhile ?P (rev p))"
    using False by (simp add: path_name_def)
  have "rev (dropWhile ?P (rev p)) @ rev (takeWhile ?P (rev p))
      = rev (takeWhile ?P (rev p) @ dropWhile ?P (rev p))"
    by (simp only: rev_append)
  also have "\<dots> = rev (rev p)"
    by (simp only: takeWhile_dropWhile_id)
  finally have p: "p = rev (dropWhile ?P (rev p)) @ path_name p"
    by (simp only: n rev_rev_ident)
  have "length (rev (dropWhile ?P (rev p))) = length p - length (path_name p)"
    using take_drop_While_length [of ?P "rev p"] by (simp add: n)
  then have "take (length p - length (path_name p)) p = rev (dropWhile ?P (rev p))"
    using p by (metis append_eq_conv_conj)
  then show ?thesis
    using p by simp
qed

lemma path_name_no_sep: "CHR ''/'' \<notin> set (path_name p)"
  by (auto simp: path_name_def dest: set_takeWhileD)

lemma suffix_of_cases:
  "suffix_of p = [] \<or>
   (\<exists>n. n < length (path_name p) \<and> suffix_of p = drop n (path_name p))"
proof (cases "suffix_of p = []")
  case True
  then show ?thesis by simp
next
  case False
  let ?i = "rfind (CHR ''.'') (path_name p)"
  have c: "0 < ?i \<and> ?i < int (length (path_name p)) - 1"
    using False by (auto simp: suffix_of_def Let_def split: if_splits)
  then have "suffix_of p = drop (nat ?i) (path_name p)"
    by (simp add: suffix_of_def Let_def)
  moreover have "nat ?i < length (path_name p)"
    using c by arith
  ultimately show ?thesis
    by blast
qed

lemma suffix_of_length: "length (suffix_of p) \<le> length (path_name p)"
  using suffix_of_cases [of p] by auto

lemma suffix_of_is_suffix:
  "path_name p = take (length (path_name p) - length (suffix_of p)) (path_name p) @ suffix_of p"
  using suffix_of_cases [of p] by auto

lemma stem_split:
  assumes "p = d @ n" and "length s \<le> length n"
  shows "take (length p - length s) p = d @ take (length n - length s) n"
  using assms by simp

lemma with_suffix_ipynb:
  assumes "path_name p \<noteq> []"
  shows "with_suffix p ''.ipynb'' = Inr (take (length p - length (suffix_of p)) p @ ''.ipynb'')"
proof -
  have "with_suffix p ''.ipynb''
      = Inr (take (length p - length (path_name p)) p
             @ take (length (path_name p) - length (suffix_of p)) (path_name p) @ ''.ipynb'')"
    using assms by (simp add: with_suffix_def Let_def)
  then show ?thesis
    using stem_split [OF path_name_is_suffix suffix_of_length, of p] by simp
qed

lemma suffix_nonempty_name: "suffix_of p \<noteq> [] \<Longrightarrow> path_name p \<noteq> []"
  using suffix_of_length [of p] by auto

lemma path_ends_with_suffix: "p = take (length p - length (suffix_of p)) p @ suffix_of p"
proof -
  have "p = take (length p - length (path_name p)) p
      @ take (length (path_name p) - length (suffix_of p)) (path_name p) @ suffix_of p"
    using path_name_is_suffix [of p] suffix_of_is_suffix [of p] by simp
  then show ?thesis
    using stem_split [OF path_name_is_suffix suffix_of_length, of p] by simp
qed

lemma with_suffix_same:
  assumes "suffix_of p = ''.ipynb''"
  shows "with_suffix p ''.ipynb'' = Inr p"
proof -
  have n: "path_name p \<noteq> []"
    using assms suffix_nonempty_name [of p] by simp
  show ?thesis
    using with_suffix_ipynb [OF n] path_ends_with_suffix [of p] assms by simp
qed

section \<open>Facts about \<open>add_notebook\<close>\<close>

lemma load_fst: "fst (load d) = \<lparr>cells = [0..<length (doc_cells d)], nb_metadata = doc_metadata d\<rparr>"
  by (simp add: load_def addrs_from_upt)

lemma load_snd: "snd (load d) = doc_cells d"
  by (simp add: load_def)

lemma locate_existing:
  assumes i: "i < length (doc_cells d)"
      and mi: "is_manifest p (doc_cells d ! i)"
      and first: "\<forall>j<i. \<not> is_manifest p (doc_cells d ! j)"
  shows "locate_or_create p (fst (load d)) (snd (load d)) = (i, fst (load d), snd (load d))"
proof -
  have "find_item (\<lambda>a. is_manifest p (doc_cells d ! a)) [0..<length (doc_cells d)] = Some i"
    unfolding find_item_first using i mi first by (intro exI [of _ i]) simp
  then show ?thesis
    by (simp add: locate_or_create_def load_fst load_snd)
qed

lemma snapshot_set_source:
  assumes "i < length (doc_cells d)"
  shows "snapshot (fst (load d)) (set_source i v (snd (load d)))
           = d\<lparr>doc_cells := (doc_cells d)[i := (doc_cells d ! i)\<lparr>source := v\<rparr>]\<rparr>"
proof -
  let ?h = "(doc_cells d)[i := (doc_cells d ! i)\<lparr>source := v\<rparr>]"
  have "map (\<lambda>a. ?h ! a) [0..<length ?h] = ?h"
    by (rule map_nth)
  then show ?thesis
    by (simp add: snapshot_def load_fst load_snd set_source_def)
qed

lemma leave_with_ok:
  assumes "leave_with E f rw = (Inr x, w3)"
  shows "fst rw = Inr x \<and> w3 = snd (close_tempfile E f (snd rw))"
  using assms
  by (cases "close_tempfile E f (snd rw)") (auto simp: leave_with_def split: option.splits)

lemma decode_ok: "decode bs = Inr s \<longleftrightarrow> valid_utf8 bs \<and> s = bs"
  by (auto simp: decode_def)

lemma add_notebook_ok:
  assumes rd: "read_notebook E path w = Inr d"
      and loc: "locate_or_create (inline_metadata E) (fst (load d)) (snd (load d)) = (cell, nb1, h1)"
      and ok: "add_notebook E path k w = (Inr u, w')"
      and rb: "back = held E
                 (find_uv_bin E # uv_script_args (mktemp E (files w) (parent path) ''.py'') k) []
                 ((files w)(mktemp E (files w) (parent path) ''.py''
                     \<mapsto> strip (source (h1 ! cell))))
                 (mktemp E (files w) (parent path) ''.py'')"
  shows "valid_utf8 back
       \<and> (\<exists>out. with_suffix path ''.ipynb'' = Inr out
             \<and> files w' out = Some (dump_ipynb E
                   (snapshot nb1 (set_source cell (strip (universal_newlines back)) h1))))"
proof -
  define f where "f = mktemp E (files w) (parent path) ''.py''"
  let ?w1 = "w\<lparr>files := (files w)(f \<mapsto> strip (source (h1 ! cell)))\<rparr>"
  let ?body = "case uv_script E f k ?w1 of
                 (Inl e, w2) \<Rightarrow> (Inl e, w2)
               | (Inr u, w2) \<Rightarrow>
                   (case decode (held E (find_uv_bin E # uv_script_args f k) [] (files ?w1) f) of
                      Inl e \<Rightarrow> (Inl e, w2)
                    | Inr s \<Rightarrow> (Inr (set_source cell (strip (universal_newlines s)) h1), w2))"
  obtain r3 w3 where lv: "leave_with E f ?body = (r3, w3)"
    by (cases "leave_with E f ?body") auto
  obtain nb h where ld: "load d = (nb, h)"
    by (cases "load d") auto
  have loc': "locate_or_create (inline_metadata E) nb h = (cell, nb1, h1)"
    using loc ld by simp
  have eq: "add_notebook E path k w =
      (case (r3, w3) of
         (Inl e, w3) \<Rightarrow> (Inl e, w3)
       | (Inr h2, w3) \<Rightarrow>
           (case with_suffix path ''.ipynb'' of
              Inl e \<Rightarrow> (Inl e, w3)
            | Inr out \<Rightarrow> write_ipynb E (snapshot nb1 h2) out w3))"
    using rd ld loc' lv unfolding f_def by (simp add: add_notebook_def Let_def)
  from ok eq obtain h2 out where r3: "r3 = Inr h2"
    and out: "with_suffix path ''.ipynb'' = Inr out"
    and w': "write_ipynb E (snapshot nb1 h2) out w3 = (Inr u, w')"
    by (auto split: sum.splits)
  have "fst ?body = Inr h2"
    using leave_with_ok [of E f ?body h2 w3] lv r3 by simp
  then have "decode back = Inr back \<and> h2 = set_source cell (strip (universal_newlines back)) h1"
    unfolding rb f_def by (auto simp: decode_ok split: prod.splits sum.splits)
  then have v: "valid_utf8 back" and h2: "h2 = set_source cell (strip (universal_newlines back)) h1"
    by (simp_all add: decode_ok)
  have "files w' out = Some (dump_ipynb E (snapshot nb1 h2))"
    using w' by (auto simp: write_ipynb_def)
  then show ?thesis
    using v out h2 by blast
qed

lemma add_notebook_frame:
  assumes rd: "read_notebook E path w = Inr d"
      and i: "i < length (doc_cells d)"
      and mi: "is_manifest (inline_metadata E) (doc_cells d ! i)"
      and first: "\<forall>j<i. \<not> is_manifest (inline_metadata E) (doc_cells d ! j)"
      and ok: "add_notebook E path k w = (Inr u, w')"
      and rb: "back = held E
                 (find_uv_bin E # uv_script_args (mktemp E (files w) (parent path) ''.py'') k) []
                 ((files w)(mktemp E (files w) (parent path) ''.py''
                     \<mapsto> strip (source (doc_cells d ! i))))
                 (mktemp E (files w) (parent path) ''.py'')"
  shows "valid_utf8 back
       \<and> (\<exists>out. with_suffix path ''.ipynb'' = Inr out
             \<and> files w' out = Some (dump_ipynb E
                 (d\<lparr>doc_cells := (doc_cells d)
                      [i := (doc_cells d ! i)\<lparr>source := strip (universal_newlines back)\<rparr>]\<rparr>)))"
proof -
  have loc: "locate_or_create (inline_metadata E) (fst (load d)) (snd (load d))
      = (i, fst (load d), snd (load d))"
    by (rule locate_existing [OF i mi first])
  have rb': "back = held E
                 (find_uv_bin E # uv_script_args (mktemp E (files w) (parent path) ''.py'') k) []
                 ((files w)(mktemp E (files w) (parent path) ''.py''
                     \<mapsto> strip (source (snd (load d) ! i))))
                 (mktemp E (files w) (parent path) ''.py'')"
    using rb by (simp add: load_snd)
  show ?thesis
    using add_notebook_ok [OF rd loc ok rb']
      snapshot_set_source [OF i, of "strip (universal_newlines back)"]
    by simp
qed

lemma with_suffix_ok:
  assumes "with_suffix p ''.ipynb'' = Inr out"
  shows "out = take (length p - length (suffix_of p)) p @ ''.ipynb''"
proof (cases "path_name p = []")
  case True
  then show ?thesis
    using assms by (simp add: with_suffix_def)
next
  case False
  then show ?thesis
    using assms with_suffix_ipynb [of p] by simp
qed

lemma add_notebook_written:
  assumes ok: "add_notebook E path k w = (Inr u, w')"
  shows "\<exists>d' out. with_suffix path ''.ipynb'' = Inr out \<and> files w' out = Some (dump_ipynb E d')"
proof -
  obtain d where rd: "read_notebook E path w = Inr d"
    using ok by (cases "read_notebook E path w") (simp_all add: add_notebook_def)
  obtain cell nb1 h1 where loc:
    "locate_or_create (inline_metadata E) (fst (load d)) (snd (load d)) = (cell, nb1, h1)"
    by (cases "locate_or_create (inline_metadata E) (fst (load d)) (snd (load d))") auto
  from add_notebook_ok [OF rd loc ok refl] show ?thesis
    by blast
qed

lemma add_notebook_read:
  assumes ok: "add_notebook E path k w = (Inr u, w')"
  shows "\<exists>bs d. files w path = Some bs \<and> jupytext_reads E (splitext_ext path) bs = Some d"
proof -
  obtain d where rd: "read_notebook E path w = Inr d"
    using ok by (cases "read_notebook E path w") (simp_all add: add_notebook_def)
  then show ?thesis
    by (auto simp: read_notebook_def split: option.splits)
qed
section \<open>The examples, evaluated\<close>

lemma example_sfx: "suffix_of ''nb.ipynb'' = ''.ipynb''"
  by (simp add: suffix_of_def path_name_def rfind_def)

lemma example_ext: "splitext_ext ''nb.ipynb'' = ''.ipynb''"
  by code_simp

lemma example_read: "read_notebook example_env ''nb.ipynb'' example_world = Inr example_doc"
  by (simp add: read_notebook_def example_world_def example_env_def example_reads_def example_ext)

lemma example_manifest_cell: "is_manifest (inline_metadata example_env) (doc_cells example_doc ! 1)"
  by (simp add: is_manifest_iff example_env_def example_doc_def includes_inline_metadata_def
      example_manifest_def newline_def)

lemma example_first: "\<forall>j<1. \<not> is_manifest (inline_metadata example_env) (doc_cells example_doc ! j)"
  by (simp add: is_manifest_iff example_doc_def)

lemma example_tmp: "mktemp example_env fs (parent ''nb.ipynb'') ''.py'' = ''tmpjuv.py''"
  by (simp add: example_env_def parent_def path_name_def joinpath_def)

lemma example_uv_script:
  "fs ''tmpjuv.py'' = Some old \<Longrightarrow>
   uv_script example_env ''tmpjuv.py'' (default_kwargs [''requests''])
      \<lparr>files = fs, cwd = c, calls = l\<rparr>
    = (Inr (), \<lparr>files = fs(''tmpjuv.py'' \<mapsto> example_manifest @ [newline]), cwd = c,
         calls = l @ [([''uv'', ''add'', ''--script'', ''tmpjuv.py'', ''requests''], [])]\<rparr>)"
  by (simp add: uv_script_def uv_def subprocess_run_def example_env_def example_run_def
      uv_script_args_def when_set_def default_kwargs_def)

lemma example_read_back:
  "held example_env
     (find_uv_bin example_env # uv_script_args ''tmpjuv.py'' (default_kwargs [''requests''])) []
     (fs(''tmpjuv.py'' \<mapsto> old)) ''tmpjuv.py''
   = example_manifest @ [newline]"
  by (simp add: example_env_def example_held_def example_run_def uv_script_args_def when_set_def
      default_kwargs_def)

lemma manifest_text: "valid_utf8 (example_manifest @ [newline])"
  by (simp add: ascii_valid example_manifest_def newline_def)

lemma strip_manifest: "strip (universal_newlines (example_manifest @ [newline])) = example_manifest"
  by code_simp

lemma example_add_notebook:
  assumes rd: "read_notebook example_env path
                 \<lparr>files = fs, cwd = c, calls = []\<rparr> = Inr example_doc"
      and tmp: "mktemp example_env fs (parent path) ''.py'' = ''tmpjuv.py''"
      and out: "with_suffix path ''.ipynb'' = Inr target"
  shows "fst (add_notebook example_env path (default_kwargs [''requests''])
                \<lparr>files = fs, cwd = c, calls = []\<rparr>) = Inr ()"
proof -
  have loc: "locate_or_create (inline_metadata example_env) (fst (load example_doc)) (snd (load example_doc))
      = (Suc 0, fst (load example_doc), snd (load example_doc))"
    using locate_existing [OF _ example_manifest_cell example_first] by (simp add: example_doc_def)
  have ld: "load example_doc = (fst (load example_doc), snd (load example_doc))"
    by simp
  have dec: "decode (example_manifest @ [newline]) = Inr (example_manifest @ [newline])"
    using manifest_text by (simp add: decode_def)
  show ?thesis
    unfolding add_notebook_def rd
    by (simp add: Let_def case_prod_beta loc tmp example_uv_script example_read_back dec out
        leave_with_def close_tempfile_def unlink_def write_ipynb_def)
qed

lemma example_add_ok:
  "fst (add example_env ''nb.ipynb'' (default_kwargs [''requests'']) False example_world) = Inr ()"
  unfolding add_unpinned example_world_def
  using example_add_notebook [OF example_read [unfolded example_world_def] example_tmp
      with_suffix_same [OF example_sfx]]
  by (simp add: example_sfx)

lemma md_read: "read_notebook example_env ''nb.md'' md_world = Inr example_doc"
proof -
  have "splitext_ext ''nb.md'' = ''.md''"
    by code_simp
  then show ?thesis
    by (simp add: read_notebook_def md_world_def example_env_def example_reads_def)
qed

lemma md_tmp: "mktemp example_env fs (parent ''nb.md'') ''.py'' = ''tmpjuv.py''"
  by (simp add: example_env_def parent_def path_name_def joinpath_def)

lemma md_with_suffix: "with_suffix ''nb.md'' ''.ipynb'' = Inr ''nb.ipynb''"
  by (simp add: with_suffix_def suffix_of_def path_name_def rfind_def)

lemma md_add_notebook_ok:
  "fst (add_notebook example_env ''nb.md'' (default_kwargs [''requests'']) md_world) = Inr ()"
  unfolding md_world_def
  by (rule example_add_notebook [OF md_read [unfolded md_world_def] md_tmp md_with_suffix])

section \<open>Only the manifest cell's source changes\<close>

text \<open>
  C2. Let \<open>add\<close> be called on a notebook path and succeed. Let \<open>w0\<close> and \<open>k'\<close> be the
  world and the arguments after the pin step (the world and the arguments given, when
  there is no pin step), let the Document read there have its first manifest cell at
  index \<open>i\<close>, and let \<open>back\<close> be what is read back from the temporary script, which
  held the stripped source of that cell when the package manager was run on it. Then
  \<open>back\<close> is a text, and the Document written back to the path is the one read with
  the source of cell \<open>i\<close> replaced by \<open>back\<close>, stripped: every other cell, the other
  fields of that cell, the order of the cells and the notebook's metadata are as they
  were read. The cell located is the object at index \<open>i\<close> of the notebook itself and no
  cell is inserted: the assignment to its source goes through a reference to the
  original cell, and so it shows in the Document that is written.
\<close>

theorem add_frame:
  assumes sfx: "suffix_of path = ''.ipynb''"
      and ok: "add E path k pin w = (Inr u, w')"
      and pinned: "pin \<longrightarrow>
                     uv_pip_compile E (packages k) (requirements k) True (exclude_newer k) w
                       = (Inr pins, w0)
                     \<and> k' = k\<lparr>packages := pins, requirements := None\<rparr>"
      and unpinned: "\<not> pin \<longrightarrow> w0 = w \<and> k' = k"
      and rd: "read_notebook E path w0 = Inr d"
      and i: "i < length (doc_cells d)"
      and mi: "is_manifest (inline_metadata E) (doc_cells d ! i)"
      and first: "\<forall>j<i. \<not> is_manifest (inline_metadata E) (doc_cells d ! j)"
      and f: "f = mktemp E (files w0) (parent path) ''.py''"
      and rb: "back = held E (find_uv_bin E # uv_script_args f k') []
                        ((files w0)(f \<mapsto> strip (source (doc_cells d ! i)))) f"
  shows "valid_utf8 back
       \<and> files w' path = Some (dump_ipynb E
             (d\<lparr>doc_cells := (doc_cells d)
                  [i := (doc_cells d ! i)\<lparr>source := strip (universal_newlines back)\<rparr>]\<rparr>))
       \<and> locate_or_create (inline_metadata E) (fst (load d)) (snd (load d))
           = (i, fst (load d), snd (load d))"
proof -
  have nb: "add_notebook E path k' w0 = (Inr u, w')"
  proof (cases pin)
    case False
    then show ?thesis
      using ok sfx unpinned by (simp add: add_unpinned)
  next
    case True
    then have c: "uv_pip_compile E (packages k) (requirements k) True (exclude_newer k) w
        = (Inr pins, w0)" and k': "k' = k\<lparr>packages := pins, requirements := None\<rparr>"
      using pinned by simp_all
    show ?thesis
      using ok True sfx add_pinned [OF c, of path] by (simp add: add_unpinned k')
  qed
  have rb': "back = held E
                 (find_uv_bin E # uv_script_args (mktemp E (files w0) (parent path) ''.py'') k') []
                 ((files w0)(mktemp E (files w0) (parent path) ''.py''
                     \<mapsto> strip (source (doc_cells d ! i))))
                 (mktemp E (files w0) (parent path) ''.py'')"
    using rb unfolding f .
  from add_notebook_frame [OF rd i mi first nb rb'] obtain out
    where v: "valid_utf8 back"
      and out: "with_suffix path ''.ipynb'' = Inr out"
      and written: "files w' out = Some (dump_ipynb E
             (d\<lparr>doc_cells := (doc_cells d)
                  [i := (doc_cells d ! i)\<lparr>source := strip (universal_newlines back)\<rparr>]\<rparr>))"
    by blast
  have "out = path"
    using out with_suffix_same [OF sfx] by simp
  then show ?thesis
    using v written locate_existing [OF i mi first] by blast
qed

theorem add_frame_witness:
  "files (snd (add example_env ''nb.ipynb'' (default_kwargs [''requests'']) False
                 example_world)) ''nb.ipynb''
     = Some (dump_ipynb example_env
         (example_doc\<lparr>doc_cells := (doc_cells example_doc)
            [1 := (doc_cells example_doc ! 1)\<lparr>source := example_manifest\<rparr>]\<rparr>))
   \<and> source (doc_cells example_doc ! 1) = example_manifest @ [newline] @ ''import os''"
proof -
  let ?k = "default_kwargs [''requests'']"
  let ?r = "add example_env ''nb.ipynb'' ?k False example_world"
  have ok: "?r = (Inr (), snd ?r)"
    using example_add_ok by (simp add: prod_eq_iff)
  have pinned: "False \<longrightarrow>
      uv_pip_compile example_env (packages ?k) (requirements ?k) True (exclude_newer ?k)
        example_world = (Inr [], example_world)
      \<and> ?k = ?k\<lparr>packages := [], requirements := None\<rparr>"
    by simp
  have unpinned: "\<not> False \<longrightarrow> example_world = example_world \<and> ?k = ?k"
    by simp
  have i: "1 < length (doc_cells example_doc)"
    by (simp add: example_doc_def)
  have f: "''tmpjuv.py'' = mktemp example_env (files example_world) (parent ''nb.ipynb'') ''.py''"
    by (simp add: example_tmp)
  have rb: "example_manifest @ [newline]
      = held example_env (find_uv_bin example_env # uv_script_args ''tmpjuv.py'' ?k) []
          ((files example_world)(''tmpjuv.py'' \<mapsto> strip (source (doc_cells example_doc ! 1))))
          ''tmpjuv.py''"
    by (simp only: example_read_back)
  have old: "source (doc_cells example_doc ! 1) = example_manifest @ [newline] @ ''import os''"
    by (simp add: example_doc_def)
  from add_frame [OF example_sfx ok pinned unpinned example_read i example_manifest_cell
      example_first f rb, THEN conjunct2, THEN conjunct1]
  have "files (snd ?r) ''nb.ipynb''
     = Some (dump_ipynb example_env
         (example_doc\<lparr>doc_cells := (doc_cells example_doc)
            [1 := (doc_cells example_doc ! 1)\<lparr>source := example_manifest\<rparr>]\<rparr>))"
    unfolding strip_manifest .
  then show ?thesis
    using old by (simp only: simp_thms)
qed

section \<open>The path the notebook is persisted to\<close>

text \<open>
  C4, as amended. \<open>add\<close> enters \<open>add_notebook\<close>, the notebook-typed flow, only for a
  path whose extension is \<open>.ipynb\<close>; the path with the notebook extension is then the
  path itself, and a successful \<open>add\<close> persists the Document there. For any other
  extension \<open>add\<close> calls add-to-script on the path itself, and the files change only as
  the package manager changes them. \<open>add_notebook\<close> called with another extension
  succeeds only on a file that the notebook reader accepts under the extension of the
  path, and then persists the Document at the path with the notebook extension: the
  same stem, the suffix replaced by \<open>.ipynb\<close>.
\<close>

theorem add_notebook_normalizes:
  "(\<forall>u w'. suffix_of path = ''.ipynb'' \<and> add E path k pin w = (Inr u, w') \<longrightarrow>
      (\<exists>d'. files w' path = Some (dump_ipynb E d')))
   \<and> (suffix_of path = ''.ipynb'' \<longrightarrow>
        with_suffix path ''.ipynb'' = Inr path
        \<and> add E path k False w = add_notebook E path k w)
   \<and> (suffix_of path \<noteq> ''.ipynb'' \<longrightarrow>
        add E path k False w = uv_script E path k w
        \<and> files (snd (add E path k False w))
            = snd (run E (find_uv_bin E # uv_script_args path k) [] (files w)))
   \<and> (\<forall>u w'. add_notebook E path k w = (Inr u, w') \<longrightarrow>
        (\<exists>bs d. files w path = Some bs \<and> jupytext_reads E (splitext_ext path) bs = Some d)
        \<and> with_suffix path ''.ipynb''
            = Inr (take (length path - length (suffix_of path)) path @ ''.ipynb'')
        \<and> (\<exists>d'. files w' (take (length path - length (suffix_of path)) path @ ''.ipynb'')
                    = Some (dump_ipynb E d')))"
proof (intro conjI allI impI)
  fix u w'
  assume a: "suffix_of path = ''.ipynb'' \<and> add E path k pin w = (Inr u, w')"
  then have sfx: "suffix_of path = ''.ipynb''" and ok: "add E path k pin w = (Inr u, w')"
    by simp_all
  have "\<exists>k' w0. add_notebook E path k' w0 = (Inr u, w')"
  proof (cases pin)
    case False
    then show ?thesis
      using ok sfx by (auto simp: add_unpinned)
  next
    case True
    obtain r w1 where c: "uv_pip_compile E (packages k) (requirements k) True (exclude_newer k) w = (r, w1)"
      by (cases "uv_pip_compile E (packages k) (requirements k) True (exclude_newer k) w") auto
    show ?thesis
    proof (cases r)
      case (Inl e)
      then show ?thesis
        using ok True c add_pin_failed [of E k w e w1 path] by simp
    next
      case (Inr pinned)
      then have "add_notebook E path (k\<lparr>packages := pinned, requirements := None\<rparr>) w1 = (Inr u, w')"
        using ok True c sfx add_pinned [of E k w pinned w1 path] by (simp add: add_unpinned)
      then show ?thesis
        by blast
    qed
  qed
  then obtain k' w0 where nb: "add_notebook E path k' w0 = (Inr u, w')"
    by blast
  from add_notebook_written [OF nb] obtain d' out
    where out: "with_suffix path ''.ipynb'' = Inr out" and f: "files w' out = Some (dump_ipynb E d')"
    by blast
  have "out = path"
    using out with_suffix_same [OF sfx] by simp
  then show "\<exists>d'. files w' path = Some (dump_ipynb E d')"
    using f by blast
next
  assume "suffix_of path = ''.ipynb''"
  then show "with_suffix path ''.ipynb'' = Inr path"
    by (rule with_suffix_same)
next
  assume "suffix_of path = ''.ipynb''"
  then show "add E path k False w = add_notebook E path k w"
    by (simp add: add_unpinned)
next
  assume "suffix_of path \<noteq> ''.ipynb''"
  then show "add E path k False w = uv_script E path k w"
    by (simp add: add_unpinned)
next
  assume "suffix_of path \<noteq> ''.ipynb''"
  then show "files (snd (add E path k False w))
            = snd (run E (find_uv_bin E # uv_script_args path k) [] (files w))"
    by (simp add: add_unpinned uv_script_files)
next
  fix u w'
  assume ok: "add_notebook E path k w = (Inr u, w')"
  show "\<exists>bs d. files w path = Some bs \<and> jupytext_reads E (splitext_ext path) bs = Some d"
    by (rule add_notebook_read [OF ok])
  from add_notebook_written [OF ok] obtain d' out
    where out: "with_suffix path ''.ipynb'' = Inr out" and f: "files w' out = Some (dump_ipynb E d')"
    by blast
  have eq: "out = take (length path - length (suffix_of path)) path @ ''.ipynb''"
    by (rule with_suffix_ok [OF out])
  show "with_suffix path ''.ipynb'' = Inr (take (length path - length (suffix_of path)) path @ ''.ipynb'')"
    using out eq by simp
  show "\<exists>d'. files w' (take (length path - length (suffix_of path)) path @ ''.ipynb'')
                  = Some (dump_ipynb E d')"
    using f eq by blast
qed

theorem add_notebook_normalizes_witness:
  "(\<exists>d'. files (snd (add example_env ''nb.ipynb'' (default_kwargs [''requests'']) False
                        example_world)) ''nb.ipynb'' = Some (dump_ipynb example_env d'))
   \<and> (\<exists>d'. files (snd (add_notebook example_env ''nb.md'' (default_kwargs [''requests''])
                          md_world)) ''nb.ipynb'' = Some (dump_ipynb example_env d'))"
proof -
  let ?k = "default_kwargs [''requests'']"
  let ?a = "add example_env ''nb.ipynb'' ?k False example_world"
  let ?r = "add_notebook example_env ''nb.md'' ?k md_world"
  have oka: "suffix_of ''nb.ipynb'' = ''.ipynb'' \<and> ?a = (Inr (), snd ?a)"
    using example_add_ok example_sfx by (simp add: prod_eq_iff)
  have ok: "?r = (Inr (), snd ?r)"
    using md_add_notebook_ok by (simp add: prod_eq_iff)
  have stem: "take (length ''nb.md'' - length (suffix_of ''nb.md'')) ''nb.md'' @ ''.ipynb'' = ''nb.ipynb''"
    by (simp add: suffix_of_def path_name_def rfind_def)
  note at_ipynb = add_notebook_normalizes [of "''nb.ipynb''" example_env ?k False example_world]
  note at_md = add_notebook_normalizes [of "''nb.md''" example_env ?k False md_world]
  have a: "\<exists>d'. files (snd ?a) ''nb.ipynb'' = Some (dump_ipynb example_env d')"
    by (rule at_ipynb [THEN conjunct1, rule_format, OF oka])
  have b: "\<exists>d'. files (snd ?r) ''nb.ipynb'' = Some (dump_ipynb example_env d')"
    using at_md [THEN conjunct2, THEN conjunct2, THEN conjunct2, rule_format, OF ok,
        THEN conjunct2, THEN conjunct2]
    unfolding stem .
  show ?thesis
    using a b by (rule conjI)
qed

text \<open>
  C4 as stated fails: \<open>add\<close> on \<open>nb.txt\<close> does not take the notebook flow. The package
  manager is run on \<open>nb.txt\<close> as a script, and nothing is written to \<open>nb.ipynb\<close>.
\<close>

theorem add_txt_counterexample:
  "fst (add example_env ''nb.txt'' (default_kwargs [''requests'']) False txt_world) = Inr ()
   \<and> files (snd (add example_env ''nb.txt'' (default_kwargs [''requests'']) False txt_world))
       ''nb.ipynb'' = None
   \<and> files (snd (add example_env ''nb.txt'' (default_kwargs [''requests'']) False txt_world))
       ''nb.txt'' = Some (example_manifest @ [newline])
   \<and> calls (snd (add example_env ''nb.txt'' (default_kwargs [''requests'']) False txt_world))
       = [([''uv'', ''add'', ''--script'', ''nb.txt'', ''requests''], [])]"
proof -
  have sfx: "suffix_of ''nb.txt'' \<noteq> ''.ipynb''"
    by (simp add: suffix_of_def path_name_def rfind_def)
  have "add example_env ''nb.txt'' (default_kwargs [''requests'']) False txt_world
      = (Inr (), \<lparr>files = [''nb.txt'' \<mapsto> ''{example}''](''nb.txt'' \<mapsto> example_manifest @ [newline]),
           cwd = ''/work'',
           calls = [([''uv'', ''add'', ''--script'', ''nb.txt'', ''requests''], [])]\<rparr>)"
    using sfx
    by (simp add: add_unpinned txt_world_def uv_script_def uv_def subprocess_run_def example_env_def
        example_run_def uv_script_args_def when_set_def default_kwargs_def)
  then show ?thesis
    by simp
qed

section \<open>Facts about \<open>init\<close>\<close>

lemma untitled_loop_find:
  "untitled_loop directory w ns
     = map_option (joinpath directory) (find (\<lambda>n. \<not> exists (joinpath directory n) w) (map untitled ns))"
  by (induction ns) simp_all

lemma spec_untitled_names_loop:
  "spec_untitled_names = ''Untitled.ipynb'' # map untitled [1..<100]"
  by code_simp

lemma get_first_find:
  "get_first_non_conflicting_untitled_ipynb directory w =
     (case find (\<lambda>n. \<not> exists (joinpath directory n) w) spec_untitled_names of
        Some n \<Rightarrow> Inr (joinpath directory n)
      | None \<Rightarrow> Inl (ValueError ''Could not find an available UntitledX.ipynb''))"
  unfolding spec_untitled_names_loop
  by (simp add: get_first_non_conflicting_untitled_ipynb_def untitled_loop_find
      split: option.splits)

lemma untitled_1: "untitled (Suc 0) = ''Untitled1.ipynb''"
  by code_simp

lemma range_1_100: "[Suc 0..<100] = Suc 0 # [2..<100]"
  by (simp add: upt_conv_Cons)

lemma spec_untitled_names_length: "length spec_untitled_names = 100"
  by code_simp

lemma spec_untitled_names_ends:
  "hd spec_untitled_names = ''Untitled.ipynb'' \<and> spec_untitled_names ! 1 = ''Untitled1.ipynb''
   \<and> spec_untitled_names ! 10 = ''Untitled10.ipynb''
   \<and> last spec_untitled_names = ''Untitled99.ipynb''"
  by code_simp

lemma spec_untitled_names_distinct: "distinct spec_untitled_names"
  by code_simp


lemma init_no_path:
  "init E None python pkgs w =
     (case get_first_non_conflicting_untitled_ipynb (cwd w) w of
        Inl e \<Rightarrow> (Inl e, w)
      | Inr p \<Rightarrow> init E (Some p) python pkgs w)"
  by (simp add: init_def split: sum.splits)

lemma find_all_taken:
  "(\<forall>n\<in>set ns. exists (joinpath directory n) w)
     \<Longrightarrow> find (\<lambda>n. \<not> exists (joinpath directory n) w) ns = None"
  by (simp add: find_None_iff)

lemma init_path_exists:
  assumes ok: "init E (Some p) python pkgs w = (Inr q, w')"
  shows "q = p \<and> exists p w'"
proof -
  have sfx: "suffix_of p = ''.ipynb''"
    using ok by (auto simp: init_def split: if_splits)
  obtain r w1 where nn: "new_notebook_with_inline_metadata E (parent p) python w = (r, w1)"
    by (cases "new_notebook_with_inline_metadata E (parent p) python w") auto
  obtain d where r: "r = Inr d"
    using ok sfx nn by (cases r) (auto simp: init_def)
  let ?w2 = "w1\<lparr>files := (files w1)(p \<mapsto> dump_ipynb E d)\<rparr>"
  show ?thesis
  proof (cases "length pkgs > 0")
    case False
    then have "w' = ?w2 \<and> q = p"
      using ok sfx nn r by (auto simp: init_def write_ipynb_def)
    then show ?thesis
      by (simp add: exists_def)
  next
    case True
    obtain r3 w3 where a: "add E p (default_kwargs pkgs) False ?w2 = (r3, w3)"
      by (cases "add E p (default_kwargs pkgs) False ?w2") auto
    have "r3 = Inr () \<and> w' = w3 \<and> q = p"
      using ok sfx nn r True a by (cases r3) (auto simp: init_def write_ipynb_def)
    then have "add_notebook E p (default_kwargs pkgs) ?w2 = (Inr (), w')" and q: "q = p"
      using a sfx by (simp_all add: add_unpinned)
    from add_notebook_written [OF this(1)] obtain d' out
      where "with_suffix p ''.ipynb'' = Inr out" and "files w' out = Some (dump_ipynb E d')"
      by blast
    then show ?thesis
      using with_suffix_same [OF sfx] q by (simp add: exists_def)
  qed
qed

lemma example_new_notebook:
  "new_notebook_with_inline_metadata example_env ''/work'' None \<lparr>files = fs, cwd = c, calls = l\<rparr>
     = (Inr (new_notebook [code_cell example_manifest True, code_cell [] False]),
        \<lparr>files = fs(''/work/tmpjuv.py'' := None), cwd = c,
         calls = l @ [([''uv'', ''init'', ''--script'', ''/work/tmpjuv.py''], [])]\<rparr>)"
proof -
  have dec: "decode (example_manifest @ [newline]) = Inr (example_manifest @ [newline])"
    using manifest_text by (simp add: decode_def)
  show ?thesis
    by (simp add: new_notebook_with_inline_metadata_def uv_def subprocess_run_def example_env_def
        example_run_def example_held_def when_set_def joinpath_def leave_with_def
        close_tempfile_def unlink_def dec strip_manifest Let_def)
qed

lemma work_paths:
  "joinpath ''/work'' ''Untitled.ipynb'' = ''/work/Untitled.ipynb''"
  "joinpath ''/work'' ''Untitled1.ipynb'' = ''/work/Untitled1.ipynb''"
  "suffix_of ''/work/Untitled.ipynb'' = ''.ipynb''"
  "suffix_of ''/work/Untitled1.ipynb'' = ''.ipynb''"
  "parent ''/work/Untitled.ipynb'' = ''/work''"
  "parent ''/work/Untitled1.ipynb'' = ''/work''"
  by (simp_all add: joinpath_def suffix_of_def path_name_def rfind_def parent_def)

lemma example_init_first:
  "init example_env (Some ''/work/Untitled.ipynb'') None [] \<lparr>files = fs, cwd = c, calls = l\<rparr>
     = (Inr ''/work/Untitled.ipynb'',
        \<lparr>files = (fs(''/work/tmpjuv.py'' := None))
                   (''/work/Untitled.ipynb'' \<mapsto> dump_ipynb example_env
                      (new_notebook [code_cell example_manifest True, code_cell [] False])),
         cwd = c,
         calls = l @ [([''uv'', ''init'', ''--script'', ''/work/tmpjuv.py''], [])]\<rparr>)"
  by (simp add: init_def work_paths example_new_notebook write_ipynb_def)

lemma example_init_second:
  "fst (init example_env (Some ''/work/Untitled1.ipynb'') None [] \<lparr>files = fs, cwd = c, calls = l\<rparr>)
     = Inr ''/work/Untitled1.ipynb''"
  by (simp add: init_def work_paths example_new_notebook write_ipynb_def)

section \<open>The name of a notebook created without a path\<close>

text \<open>
  C9. Without a path, \<open>init\<close> takes the name that
  \<open>get_first_non_conflicting_untitled_ipynb\<close> computes for the current directory: the
  first of the 100 distinct names \<open>Untitled.ipynb\<close>, \<open>Untitled1.ipynb\<close>, ...,
  \<open>Untitled99.ipynb\<close> that does not exist there; the names are the list
  \<open>spec_untitled_names\<close>, whose numbers are written out digit by digit. Where \<open>Untitled.ipynb\<close> does not
  exist that is \<open>Untitled.ipynb\<close>; where it exists and \<open>Untitled1.ipynb\<close> does not,
  it is \<open>Untitled1.ipynb\<close>. A run that succeeds leaves the file it chose in place,
  so the next run chooses another name. When all 100 names exist, \<open>init\<close> fails with
  the \<open>ValueError\<close> and does nothing else: no subprocess is run and no file is
  touched.
\<close>

theorem untitled_first_free:
  "get_first_non_conflicting_untitled_ipynb directory w =
     (case find (\<lambda>n. \<not> exists (joinpath directory n) w) spec_untitled_names of
        Some n \<Rightarrow> Inr (joinpath directory n)
      | None \<Rightarrow> Inl (ValueError ''Could not find an available UntitledX.ipynb''))
   \<and> length spec_untitled_names = 100 \<and> distinct spec_untitled_names
   \<and> hd spec_untitled_names = ''Untitled.ipynb'' \<and> spec_untitled_names ! 1 = ''Untitled1.ipynb''
   \<and> spec_untitled_names ! 10 = ''Untitled10.ipynb''
   \<and> last spec_untitled_names = ''Untitled99.ipynb''
   \<and> init E None python pkgs w =
       (case get_first_non_conflicting_untitled_ipynb (cwd w) w of
          Inl e \<Rightarrow> (Inl e, w)
        | Inr p \<Rightarrow> init E (Some p) python pkgs w)
   \<and> (\<not> exists (joinpath directory ''Untitled.ipynb'') w \<longrightarrow>
        get_first_non_conflicting_untitled_ipynb directory w
          = Inr (joinpath directory ''Untitled.ipynb''))
   \<and> (exists (joinpath directory ''Untitled.ipynb'') w
        \<and> \<not> exists (joinpath directory ''Untitled1.ipynb'') w \<longrightarrow>
        get_first_non_conflicting_untitled_ipynb directory w
          = Inr (joinpath directory ''Untitled1.ipynb''))
   \<and> ((\<forall>n\<in>set spec_untitled_names. exists (joinpath (cwd w) n) w) \<longrightarrow>
        init E None python pkgs w
          = (Inl (ValueError ''Could not find an available UntitledX.ipynb''), w))
   \<and> (\<forall>p w'. init E None python pkgs w = (Inr p, w') \<longrightarrow>
        get_first_non_conflicting_untitled_ipynb (cwd w) w = Inr p \<and> exists p w')"
proof -
  have first: "get_first_non_conflicting_untitled_ipynb directory w
      = Inr (joinpath directory ''Untitled.ipynb'')"
    if "\<not> exists (joinpath directory ''Untitled.ipynb'') w"
    using that by (simp add: get_first_non_conflicting_untitled_ipynb_def)
  have second: "get_first_non_conflicting_untitled_ipynb directory w
      = Inr (joinpath directory ''Untitled1.ipynb'')"
    if "exists (joinpath directory ''Untitled.ipynb'') w
        \<and> \<not> exists (joinpath directory ''Untitled1.ipynb'') w"
    using that
    by (simp add: get_first_non_conflicting_untitled_ipynb_def range_1_100 untitled_1 del: upt_Suc)
  have taken: "init E None python pkgs w
      = (Inl (ValueError ''Could not find an available UntitledX.ipynb''), w)"
    if "\<forall>n\<in>set spec_untitled_names. exists (joinpath (cwd w) n) w"
    using find_all_taken [OF that] by (simp add: init_no_path get_first_find)
  have after: "get_first_non_conflicting_untitled_ipynb (cwd w) w = Inr p \<and> exists p w'"
    if ok: "init E None python pkgs w = (Inr p, w')" for p w'
  proof (cases "get_first_non_conflicting_untitled_ipynb (cwd w) w")
    case (Inl e)
    then show ?thesis
      using ok by (simp add: init_no_path)
  next
    case (Inr q)
    then have "init E (Some q) python pkgs w = (Inr p, w')"
      using ok by (simp add: init_no_path)
    from init_path_exists [OF this] show ?thesis
      using Inr by simp
  qed
  show ?thesis
    using get_first_find [of directory w] spec_untitled_names_length spec_untitled_names_distinct
      spec_untitled_names_ends init_no_path [of E python pkgs w] first second taken after
    by blast
qed


theorem untitled_first_free_witness:
  "fst (init example_env None None [] empty_world) = Inr ''/work/Untitled.ipynb''
   \<and> fst (init example_env None None [] (snd (init example_env None None [] empty_world)))
       = Inr ''/work/Untitled1.ipynb''"
proof -
  let ?w0 = "\<lparr>files = Map.empty, cwd = ''/work'', calls = []\<rparr>"
  let ?w1 = "\<lparr>files = [''/work/Untitled.ipynb'' \<mapsto> dump_ipynb example_env
                      (new_notebook [code_cell example_manifest True, code_cell [] False])],
         cwd = ''/work'',
         calls = [([''uv'', ''init'', ''--script'', ''/work/tmpjuv.py''], [])]\<rparr>"
  note t0 = untitled_first_free [of "''/work''" ?w0 example_env None "[]",
      THEN conjunct2, THEN conjunct2, THEN conjunct2, THEN conjunct2, THEN conjunct2, THEN conjunct2,
      THEN conjunct2]
  note t1 = untitled_first_free [of "''/work''" ?w1 example_env None "[]",
      THEN conjunct2, THEN conjunct2, THEN conjunct2, THEN conjunct2, THEN conjunct2, THEN conjunct2,
      THEN conjunct2]
  have free0: "\<not> exists (joinpath ''/work'' ''Untitled.ipynb'') ?w0"
    by (simp add: exists_def)
  have g0: "get_first_non_conflicting_untitled_ipynb ''/work'' ?w0 = Inr ''/work/Untitled.ipynb''"
    using t0 [THEN conjunct2, THEN conjunct1, THEN mp, OF free0] by (simp only: work_paths)
  have i0: "init example_env None None [] ?w0
      = init example_env (Some ''/work/Untitled.ipynb'') None [] ?w0"
    using t0 [THEN conjunct1] by (simp only: world.simps g0 sum.case)
  have r0: "init example_env None None [] empty_world = (Inr ''/work/Untitled.ipynb'', ?w1)"
    unfolding empty_world_def i0 example_init_first by simp
  have free1: "exists (joinpath ''/work'' ''Untitled.ipynb'') ?w1
      \<and> \<not> exists (joinpath ''/work'' ''Untitled1.ipynb'') ?w1"
    by (simp add: exists_def work_paths)
  have g1: "get_first_non_conflicting_untitled_ipynb ''/work'' ?w1 = Inr ''/work/Untitled1.ipynb''"
    using t1 [THEN conjunct2, THEN conjunct2, THEN conjunct1, THEN mp, OF free1]
    by (simp only: work_paths)
  have i1: "init example_env None None [] ?w1
      = init example_env (Some ''/work/Untitled1.ipynb'') None [] ?w1"
    using t1 [THEN conjunct1] by (simp only: world.simps g1 sum.case)
  have r1: "fst (init example_env None None [] ?w1) = Inr ''/work/Untitled1.ipynb''"
    unfolding i1 by (rule example_init_second)
  show ?thesis
    unfolding r0 using r1 by (simp only: fst_conv snd_conv simp_thms)
qed


end
